theory Spec2Isabelle
  imports Complex_Main "HOL-Library.Word"
begin

section \<open>JavaScript values used by the panels\<close>

text \<open>
  A nullable string state (\<open>string | null\<close>) is an optional list of characters.
  JavaScript truthiness of such a value: \<open>null\<close>, \<open>undefined\<close> and the empty string are
  falsy.
\<close>

definition truthy :: "'a list option \<Rightarrow> bool" where
  "truthy v = (case v of None \<Rightarrow> False | Some s \<Rightarrow> s \<noteq> [])"

text \<open>\<open>arr[i]\<close> on a JavaScript array: \<open>undefined\<close> (here \<open>None\<close>) out of range.\<close>

fun nth_opt :: "'a list \<Rightarrow> nat \<Rightarrow> 'a option" where
  "nth_opt [] i = None"
| "nth_opt (x # xs) 0 = Some x"
| "nth_opt (x # xs) (Suc i) = nth_opt xs i"

text \<open>
  \<open>s.split(sep)\<close> for a one-character separator: the pieces between the separators,
  in order; a string without the separator gives the one-element array holding it.
\<close>

fun split_on :: "char \<Rightarrow> string \<Rightarrow> string list" where
  "split_on sep [] = [[]]"
| "split_on sep (c # cs) =
     (if c = sep then [] # split_on sep cs
      else (case split_on sep cs of
              [] \<Rightarrow> [[c]]
            | p # ps \<Rightarrow> (c # p) # ps))"

section \<open>types.ts: blobToBase64\<close>












section \<open>SmartChat: sendMessage\<close>

text \<open>
  Text that the user types or that the service returns is a JavaScript string: a sequence
  of UTF-16 code units. Base64 data, identifiers and model names stay \<open>string\<close>; \<open>js\<close>
  gives the code units of an ASCII literal.
\<close>

type_synonym code_unit = "16 word"

type_synonym js_string = "code_unit list"

definition js :: "string \<Rightarrow> js_string" where
  "js s = map of_char s"

text \<open>
  \<open>String.prototype.trim\<close> removes white space and line terminators at both ends
  (ECMAScript \<open>WhiteSpace\<close> and \<open>LineTerminator\<close>): tab, line feed, vertical tab, form
  feed, carriage return, space, U+00A0, U+1680, U+2000 to U+200A, U+2028, U+2029, U+202F,
  U+205F, U+3000 and U+FEFF. All of them are single code units.
\<close>

definition is_space :: "code_unit \<Rightarrow> bool" where
  "is_space c =
     (c \<in> set [0x0009, 0x000A, 0x000B, 0x000C, 0x000D, 0x0020, 0x00A0, 0x1680,
                0x2028, 0x2029, 0x202F, 0x205F, 0x3000, 0xFEFF]
      \<or> (0x2000 \<le> c \<and> c \<le> 0x200A))"

definition trim :: "js_string \<Rightarrow> js_string" where
  "trim s = rev (dropWhile is_space (rev (dropWhile is_space s)))"

text \<open>\<open>Number.prototype.toString\<close> on a non-negative integer: its decimal digits.\<close>

function toString :: "nat \<Rightarrow> string" where
  "toString n =
     (if n < 10 then [''0123456789'' ! n]
      else toString (n div 10) @ [''0123456789'' ! (n mod 10)])"
  by pat_completeness auto
termination
  by (relation "measure id") auto

datatype role = User | Model

text \<open>
  \<open>ChatMessage\<close> of types.ts. \<open>groundingMetadata\<close> has type \<open>any\<close> and is only passed
  on; it is kept as an opaque string.
\<close>

record chat_message =
  msg_id :: string
  msg_role :: role
  msg_text :: js_string
  msg_images :: "string list option"
  msg_timestamp :: nat
  msg_groundingMetadata :: "string option"

datatype chat_mode = Fast | Think | Search | Maps

record chat_state =
  messages :: "chat_message list"
  input :: js_string
  isLoading :: bool
  mode :: chat_mode
  uploadedImage :: "string option"

datatype part = TextPart string | InlineDataPart string string

datatype tool = GoogleSearch | GoogleMaps

datatype chat_part = ChatText js_string | ChatInlineData string string

record chat_request =
  req_model :: string
  req_parts :: "chat_part list"
  req_tools :: "tool list option"
  req_toolConfig :: "(real \<times> real) option"
  req_thinkingBudget :: "nat option"

text \<open>
  Of the response only \<open>response.text\<close> and
  \<open>response.candidates?.[0]?.groundingMetadata\<close> are read. A failed request throws an
  object whose \<open>message\<close> may be undefined; \<open>thrown\<close> is such an object with an ASCII
  message, \<open>chat_thrown\<close> one whose message is appended to the text of a chat message.
\<close>

record chat_response =
  resp_text :: "js_string option"
  resp_grounding :: "string option"

datatype thrown = Thrown "string option"

datatype chat_thrown = ChatThrown "js_string option"

text \<open>
  The surroundings of one call: the remote \<open>generateContent\<close> and the four readings of
  \<open>Date.now()\<close> (two for the user message, two for the answer).
\<close>

record chat_env =
  generateContent :: "chat_request \<Rightarrow> chat_thrown + chat_response"
  now_user_id :: nat
  now_user_ts :: nat
  now_bot_id :: nat
  now_bot_ts :: nat

text \<open>The guard of line 25: \<open>(!input.trim() && !uploadedImage) || isLoading\<close>.\<close>

definition sendMessage_guard :: "chat_state \<Rightarrow> bool" where
  "sendMessage_guard st =
     ((trim (input st) = [] \<and> \<not> truthy (uploadedImage st)) \<or> isLoading st)"

definition userMsg :: "chat_env \<Rightarrow> chat_state \<Rightarrow> chat_message" where
  "userMsg env st =
     \<lparr> msg_id = toString (now_user_id env),
       msg_role = User,
       msg_text = input st,
       msg_images = (if truthy (uploadedImage st) then Some [the (uploadedImage st)] else None),
       msg_timestamp = now_user_ts env,
       msg_groundingMetadata = None \<rparr>"

text \<open>The four state updates before the request (lines 35 to 38).\<close>

definition sendMessage_begin :: "chat_env \<Rightarrow> chat_state \<Rightarrow> chat_state" where
  "sendMessage_begin env st =
     st\<lparr> messages := messages st @ [userMsg env st],
          input := [],
          uploadedImage := None,
          isLoading := True \<rparr>"

text \<open>
  The \<open>switch\<close> on the mode and the construction of the parts (lines 42 to 93). An empty
  \<open>tools\<close> array and an empty \<open>toolConfig\<close> object are sent as \<open>undefined\<close>. The
  \<open>images\<close> array of a user message, when present, holds the one uploaded image.
\<close>

definition mode_model :: "chat_mode \<Rightarrow> string" where
  "mode_model m =
     (case m of
        Fast \<Rightarrow> ''gemini-2.5-flash-lite-latest''
      | Think \<Rightarrow> ''gemini-3-pro-preview''
      | Search \<Rightarrow> ''gemini-3-flash-preview''
      | Maps \<Rightarrow> ''gemini-2.5-flash'')"

definition mode_tools :: "chat_mode \<Rightarrow> tool list" where
  "mode_tools m =
     (case m of Search \<Rightarrow> [GoogleSearch] | Maps \<Rightarrow> [GoogleMaps] | _ \<Rightarrow> [])"

definition build_request :: "chat_mode \<Rightarrow> chat_message \<Rightarrow> chat_request" where
  "build_request m um =
     \<lparr> req_model =
         (case msg_images um of
            None \<Rightarrow> mode_model m
          | Some imgs \<Rightarrow> (if m = Fast then ''gemini-3-pro-preview'' else mode_model m)),
       req_parts =
         (case msg_images um of
            None \<Rightarrow> [ChatText (msg_text um)]
          | Some imgs \<Rightarrow> [ChatInlineData ''image/jpeg'' (hd imgs), ChatText (msg_text um)]),
       req_tools = (if mode_tools m \<noteq> [] then Some (mode_tools m) else None),
       req_toolConfig = (if m = Maps then Some (40.7128, - 74.0060) else None),
       req_thinkingBudget = (if m = Think then Some 32768 else None) \<rparr>"

text \<open>
  The answer appended after the request: the \<open>try\<close> branch (lines 95 to 106) or the
  \<open>catch\<close> branch (lines 108 to 115).
\<close>

definition botMsg :: "chat_env \<Rightarrow> chat_thrown + chat_response \<Rightarrow> chat_message" where
  "botMsg env res =
     (case res of
        Inr response \<Rightarrow>
          \<lparr> msg_id = toString (now_bot_id env + 1),
            msg_role = Model,
            msg_text = (if truthy (resp_text response) then the (resp_text response)
                        else js ''I processed that, but have no text response.''),
            msg_images = None,
            msg_timestamp = now_bot_ts env,
            msg_groundingMetadata = resp_grounding response \<rparr>
      | Inl (ChatThrown message) \<Rightarrow>
          \<lparr> msg_id = toString (now_bot_id env),
            msg_role = Model,
            msg_text = js ''Error: '' @ (case message of None \<Rightarrow> js ''undefined'' | Some m \<Rightarrow> m),
            msg_images = None,
            msg_timestamp = now_bot_ts env,
            msg_groundingMetadata = None \<rparr>)"

text \<open>
  The continuation after \<open>await\<close>: one functional update of the list and the \<open>finally\<close>
  block. It acts on the state of that moment; the mode and the user message are the
  ones the call started with.
\<close>

definition sendMessage_finish ::
  "chat_env \<Rightarrow> chat_mode \<Rightarrow> chat_message \<Rightarrow> chat_state \<Rightarrow> chat_state" where
  "sendMessage_finish env m um st =
     st\<lparr> messages := messages st @ [botMsg env (generateContent env (build_request m um))],
          isLoading := False \<rparr>"

definition sendMessage :: "chat_env \<Rightarrow> chat_state \<Rightarrow> chat_state" where
  "sendMessage env st =
     (if sendMessage_guard st then st
      else sendMessage_finish env (mode st) (userMsg env st) (sendMessage_begin env st))"

section \<open>VintedStudio: handleGenerate\<close>

datatype quality_option = Q1K | Q2K | Q4K

definition quality_string :: "quality_option \<Rightarrow> string" where
  "quality_string q = (case q of Q1K \<Rightarrow> ''1K'' | Q2K \<Rightarrow> ''2K'' | Q4K \<Rightarrow> ''4K'')"

record studio_state =
  originalImage :: "string option"
  generatedImage :: "string option"
  prompt :: string
  loading :: bool
  quality :: quality_option

text \<open>The request: the model, the two parts, and \<open>config.imageConfig.imageSize\<close> if set.\<close>

record image_request =
  img_model :: string
  img_parts :: "part list"
  img_imageSize :: "string option"

text \<open>
  The environment: \<open>process.env.API_KEY\<close> and the remote call, which throws or returns
  \<open>response.candidates?.[0]?.content?.parts\<close>.
\<close>

record studio_env =
  API_KEY :: "string option"
  generateImage :: "image_request \<Rightarrow> thrown + part list option"

datatype studio_effect = Sent image_request | Alert string

definition studio_model :: "quality_option \<Rightarrow> string" where
  "studio_model q = (if q = Q1K then ''gemini-2.5-flash-image'' else ''gemini-3-pro-image-preview'')"

definition studio_request :: "studio_state \<Rightarrow> image_request" where
  "studio_request st =
     \<lparr> img_model = studio_model (quality st),
       img_parts = [InlineDataPart ''image/jpeg'' (the (originalImage st)),
                    TextPart (''Replace the background with '' @ prompt st)],
       img_imageSize = (if quality st \<noteq> Q1K then Some (quality_string (quality st)) else None) \<rparr>"

text \<open>The \<open>for\<close> loop with \<open>break\<close>: the data of the first part that carries inline data.\<close>

fun first_inline :: "part list \<Rightarrow> string option" where
  "first_inline [] = None"
| "first_inline (InlineDataPart mime d # ps) = Some d"
| "first_inline (TextPart t # ps) = first_inline ps"

definition handleGenerate :: "studio_env \<Rightarrow> studio_state \<Rightarrow> studio_state \<times> studio_effect list" where
  "handleGenerate env st =
     (if \<not> truthy (originalImage st) \<or> \<not> truthy (API_KEY env) then (st, [])
      else
        let st1 = st\<lparr> loading := True, generatedImage := None \<rparr>;
            request = studio_request st
        in (case generateImage env request of
              Inl err \<Rightarrow>
                (st1\<lparr> loading := False \<rparr>,
                 [Sent request, Alert ''Er is iets misgegaan bij het genereren. Probeer het opnieuw.''])
            | Inr None \<Rightarrow> (st1\<lparr> loading := False \<rparr>, [Sent request])
            | Inr (Some parts) \<Rightarrow>
                (case first_inline parts of
                   None \<Rightarrow> (st1\<lparr> loading := False \<rparr>, [Sent request])
                 | Some d \<Rightarrow>
                     (st1\<lparr> generatedImage := Some (''data:image/png;base64,'' @ d), loading := False \<rparr>,
                      [Sent request]))))"

section \<open>VeoStudio: generateVideo\<close>

text \<open>
  Of a long-running operation the code reads \<open>operation.done\<close> and
  \<open>operation.response?.generatedVideos?.[0]?.video?.uri\<close>.
\<close>

record video_operation =
  op_done :: bool
  op_uri :: "string option"

record veo_state =
  veo_prompt :: string
  veo_loading :: bool
  videoUrl :: "string option"
  uploadImage :: "string option"
  status :: string

text \<open>
  The request of \<open>generateVideos\<close>: the model, the prompt, the image (bytes and media
  type) when one is uploaded, and the fixed configuration.
\<close>

record veo_request =
  vid_model :: string
  vid_prompt :: string
  vid_image :: "(string \<times> string) option"
  vid_numberOfVideos :: nat
  vid_resolution :: string
  vid_aspectRatio :: string

text \<open>\<open>window.aistudio\<close>: whether a key is selected, and whether \<open>openSelectKey\<close> resolves.\<close>

record aistudio_env =
  hasSelectedApiKey :: bool
  openSelectKey_resolves :: bool

text \<open>
  The surroundings of one call. \<open>getVideosOperation k\<close> is what the remote service answers
  to poll number \<open>k\<close> (from 0); \<open>fetch_blob\<close> is \<open>fetch\<close> followed by \<open>blob()\<close> and
  \<open>URL.createObjectURL\<close>.
\<close>

record veo_env =
  aistudio :: "aistudio_env option"
  veo_API_KEY :: "string option"
  generateVideos :: "veo_request \<Rightarrow> thrown + video_operation"
  getVideosOperation :: "nat \<Rightarrow> thrown + video_operation"
  fetch_blob :: "string \<Rightarrow> thrown + string"

text \<open>What the call does to the outside, in order; \<open>Sleep\<close> is the timer in milliseconds.\<close>

datatype veo_action =
    AlertV string
  | OpenSelectKey
  | SetStatus string
  | GenerateVideos veo_request
  | Sleep nat
  | GetVideosOperation
  | Fetch string

definition checkApiKey :: "veo_env \<Rightarrow> bool \<times> veo_action list" where
  "checkApiKey env =
     (case aistudio env of
        None \<Rightarrow> (False, [AlertV ''AI Studio environment not detected.''])
      | Some a \<Rightarrow>
          if \<not> hasSelectedApiKey a
          then (if openSelectKey_resolves a then (True, [OpenSelectKey]) else (False, [OpenSelectKey]))
          else (True, []))"

text \<open>One turn of the \<open>while\<close> loop of lines 418 to 422.\<close>

definition poll_turn :: "veo_action list" where
  "poll_turn = [SetStatus ''Rendering video... this may take a minute.'', Sleep 5000, GetVideosOperation]"

text \<open>
  The loop. It has no bound in the source, so it is a partial function: \<open>None\<close> is a loop
  that never ends. A poll that throws leaves the loop with the thrown value.
\<close>

partial_function (option) poll ::
  "(nat \<Rightarrow> thrown + video_operation) \<Rightarrow> nat \<Rightarrow> video_operation \<Rightarrow> veo_action list
     \<Rightarrow> (veo_action list \<times> (thrown + video_operation)) option" where
  "poll getOp k operation trace =
     (if op_done operation then Some (trace, Inr operation)
      else (case getOp k of
              Inl err \<Rightarrow> Some (trace @ poll_turn, Inl err)
            | Inr operation' \<Rightarrow> poll getOp (Suc k) operation' (trace @ poll_turn)))"

declare poll.simps [code]

text \<open>\<open>s.includes(sub)\<close>.\<close>

fun starts_with :: "string \<Rightarrow> string \<Rightarrow> bool" where
  "starts_with s [] = True"
| "starts_with [] (c # cs) = False"
| "starts_with (d # ds) (c # cs) = (d = c \<and> starts_with ds cs)"

fun str_includes :: "string \<Rightarrow> string \<Rightarrow> bool" where
  "str_includes [] sub = (sub = [])"
| "str_includes (d # ds) sub = (starts_with (d # ds) sub \<or> str_includes ds sub)"

text \<open>The \<open>catch\<close> and \<open>finally\<close> blocks of lines 435 to 446.\<close>

definition veo_failed ::
  "veo_env \<Rightarrow> thrown \<Rightarrow> veo_state \<Rightarrow> veo_action list \<Rightarrow> veo_state \<times> veo_action list" where
  "veo_failed env err st trace =
     (st\<lparr> veo_loading := False, status := [] \<rparr>,
      trace @
      (case err of
         Thrown message \<Rightarrow>
           (case message of
              None \<Rightarrow> [AlertV (''Video generation failed: '' @ ''undefined'')]
            | Some m \<Rightarrow>
                if str_includes m ''Requested entity was not found''
                then AlertV ''API Key issue. Please re-select your key.'' #
                     (case aistudio env of None \<Rightarrow> [] | Some a \<Rightarrow> [OpenSelectKey])
                else [AlertV (''Video generation failed: '' @ m)])))"

definition veo_request_of :: "veo_state \<Rightarrow> veo_request" where
  "veo_request_of st =
     \<lparr> vid_model = ''veo-3.1-fast-generate-preview'',
       vid_prompt = veo_prompt st,
       vid_image = (if truthy (uploadImage st) then Some (the (uploadImage st), ''image/jpeg'') else None),
       vid_numberOfVideos = 1,
       vid_resolution = ''720p'',
       vid_aspectRatio = ''16:9'' \<rparr>"

text \<open>The actions up to and including the call of \<open>generateVideos\<close> (lines 381 to 415).\<close>

definition veo_start_log :: "veo_state \<Rightarrow> veo_action list" where
  "veo_start_log st =
     [SetStatus ''Initializing generation...'',
      SetStatus (if truthy (uploadImage st) then ''Uploading image & generating video...''
                 else ''Generating video from text...''),
      GenerateVideos (veo_request_of st)]"

text \<open>The part after the loop (lines 424 to 433), given the operation the loop ended with.\<close>

definition veo_download ::
  "veo_env \<Rightarrow> video_operation \<Rightarrow> veo_state \<Rightarrow> veo_action list \<Rightarrow> veo_state \<times> veo_action list" where
  "veo_download env operation st trace =
     (if truthy (op_uri operation) \<and> truthy (veo_API_KEY env)
      then
        let url = the (op_uri operation) @ ''&key='' @ the (veo_API_KEY env);
            trace' = trace @ [SetStatus ''Downloading video...'', Fetch url]
        in (case fetch_blob env url of
              Inl err \<Rightarrow> veo_failed env err (st\<lparr> status := ''Downloading video...'' \<rparr>) trace'
            | Inr objectUrl \<Rightarrow>
                (st\<lparr> videoUrl := Some objectUrl, veo_loading := False, status := [] \<rparr>, trace'))
      else veo_failed env (Thrown (Some ''No video URI returned'')) st trace)"

definition generateVideo :: "veo_env \<Rightarrow> veo_state \<Rightarrow> (veo_state \<times> veo_action list) option" where
  "generateVideo env st =
     (if veo_prompt st = [] then Some (st, [])
      else
        (case checkApiKey env of
           (False, acts) \<Rightarrow> Some (st, acts)
         | (True, acts) \<Rightarrow>
             let st1 = st\<lparr> veo_loading := True, videoUrl := None \<rparr>;
                 log0 = acts @ veo_start_log st
             in (case generateVideos env (veo_request_of st) of
                   Inl err \<Rightarrow> Some (veo_failed env err st1 log0)
                 | Inr operation0 \<Rightarrow>
                     (case poll (getVideosOperation env) 0 operation0 log0 of
                        None \<Rightarrow> None
                      | Some (log1, Inl err) \<Rightarrow> Some (veo_failed env err st1 log1)
                      | Some (log1, Inr operation) \<Rightarrow> Some (veo_download env operation st1 log1)))))"

text \<open>
  The operation in hand at the \<open>k\<close>-th test of the loop condition: the one that
  \<open>generateVideos\<close> returned, then the answers to the polls.
\<close>

definition operation_at ::
  "(nat \<Rightarrow> thrown + video_operation) \<Rightarrow> video_operation \<Rightarrow> nat \<Rightarrow> thrown + video_operation" where
  "operation_at getOp operation0 k = (case k of 0 \<Rightarrow> Inr operation0 | Suc j \<Rightarrow> getOp j)"

section \<open>LiveAssistant: the objects the component holds\<close>

text \<open>
  The component keeps references (\<open>useRef\<close>) to browser objects that it mutates and that
  outlive one call. The objects live in stores, one list per kind; a reference is an index
  into its store, and a new object is appended. Times (\<open>currentTime\<close>, a buffer's
  \<open>duration\<close>, the argument of \<open>start\<close>) are JavaScript numbers, taken here as reals.
\<close>

datatype context_state = Suspended | Running | Closed

record audio_context =
  sampleRate :: nat
  ctx_state :: context_state

text \<open>
  A \<open>ScriptProcessorNode\<close>: its three construction arguments, the session that its
  \<open>onaudioprocess\<close> handler forwards to (the \<open>sessionPromise\<close> of the closure), and whether
  its output is still connected.
\<close>

record script_processor =
  bufferSize :: nat
  numberOfInputChannels :: nat
  numberOfOutputChannels :: nat
  proc_context :: nat
  proc_session :: nat
  proc_connected :: bool

text \<open>
  A \<open>MediaStreamAudioSourceNode\<close>: the stream it was made from, its context, and the
  processor that its output is connected to, if any.
\<close>

record stream_source =
  mic_stream :: nat
  mic_context :: nat
  mic_output :: "nat option"

text \<open>
  An \<open>AudioBufferSourceNode\<close> that was started: the time given to \<open>start\<close>, the duration
  of its buffer, whether \<open>stop\<close> was called on it and whether its \<open>ended\<close> event has fired.
\<close>

record buffer_source =
  startedAt :: real
  duration :: real
  src_stopped :: bool
  src_ended :: bool

datatype session_status = Connecting | Open | SessionClosed

text \<open>A streaming session and the microphone stream of the \<open>startSession\<close> call that made it.\<close>

record live_session =
  sess_status :: session_status
  sess_stream :: nat

text \<open>
  A \<open>LiveServerMessage\<close>, as far as the handler reads it. Every level is optional in the
  source (\<open>?.\<close>).
\<close>

record inline_blob =
  data :: "string option"

record live_part =
  inlineData :: "inline_blob option"

record live_content =
  parts :: "live_part list option"

record live_server_content =
  modelTurn :: "live_content option"
  interrupted :: "bool option"

record live_server_message =
  serverContent :: "live_server_content option"

text \<open>\<open>serverContent?.modelTurn?.parts?.[0]?.inlineData?.data\<close>\<close>

definition inline_audio :: "live_server_message \<Rightarrow> string option" where
  "inline_audio msg =
     Option.bind (Option.bind (Option.bind (Option.bind (Option.bind
       (serverContent msg) modelTurn) parts) (\<lambda>ps. nth_opt ps 0)) inlineData) data"

text \<open>\<open>serverContent?.interrupted\<close> as a condition.\<close>

definition is_interrupted :: "live_server_message \<Rightarrow> bool" where
  "is_interrupted msg = (Option.bind (serverContent msg) interrupted = Some True)"

text \<open>
  The React state, the eight refs and the stores. \<open>sourcesRef\<close> is a \<open>Set\<close>: a list
  without repetition, in insertion order. \<open>pendingStarts\<close> counts the calls of
  \<open>startSession\<close> that are suspended at \<open>await getUserMedia\<close>, and \<open>pendingDecodes\<close>
  holds the messages whose \<open>onmessage\<close> call is suspended at \<open>await decodeAudioData\<close>.
\<close>

record live_state =
  connected :: bool
  isTalking :: bool
  error :: "string option"
  audioContextRef :: "nat option"
  inputContextRef :: "nat option"
  streamRef :: "nat option"
  processorRef :: "nat option"
  sessionRef :: "nat option"
  sourceRef :: "nat option"
  nextStartTimeRef :: real
  sourcesRef :: "nat list"
  contexts :: "audio_context list"
  streams :: "bool list list"
  processors :: "script_processor list"
  micSources :: "stream_source list"
  bufferSources :: "buffer_source list"
  sessions :: "live_session list"
  pendingStarts :: nat
  pendingDecodes :: "live_server_message list"

definition live_init :: live_state where
  "live_init =
     \<lparr> connected = False, isTalking = False, error = None,
       audioContextRef = None, inputContextRef = None, streamRef = None,
       processorRef = None, sessionRef = None, sourceRef = None,
       nextStartTimeRef = 0, sourcesRef = [],
       contexts = [], streams = [], processors = [], micSources = [],
       bufferSources = [], sessions = [], pendingStarts = 0, pendingDecodes = [] \<rparr>"

section \<open>LiveAssistant: cleanup\<close>

text \<open>
  The method calls on the referenced objects. An optional call \<open>ref.current?.m()\<close> does
  nothing when the reference is null.
\<close>

definition close_session :: "nat option \<Rightarrow> live_session list \<Rightarrow> live_session list" where
  "close_session r ss =
     (case r of None \<Rightarrow> ss | Some i \<Rightarrow> ss[i := (ss ! i)\<lparr> sess_status := SessionClosed \<rparr>])"

definition stop_tracks :: "nat option \<Rightarrow> bool list list \<Rightarrow> bool list list" where
  "stop_tracks r ms =
     (case r of None \<Rightarrow> ms | Some i \<Rightarrow> ms[i := map (\<lambda>live. False) (ms ! i)])"

definition disconnect_processor :: "nat option \<Rightarrow> script_processor list \<Rightarrow> script_processor list" where
  "disconnect_processor r ps =
     (case r of None \<Rightarrow> ps | Some i \<Rightarrow> ps[i := (ps ! i)\<lparr> proc_connected := False \<rparr>])"

definition disconnect_source :: "nat option \<Rightarrow> stream_source list \<Rightarrow> stream_source list" where
  "disconnect_source r ns =
     (case r of None \<Rightarrow> ns | Some i \<Rightarrow> ns[i := (ns ! i)\<lparr> mic_output := None \<rparr>])"

definition close_context :: "nat option \<Rightarrow> audio_context list \<Rightarrow> audio_context list" where
  "close_context r cs =
     (case r of
        None \<Rightarrow> cs
      | Some i \<Rightarrow>
          if ctx_state (cs ! i) \<noteq> Closed then cs[i := (cs ! i)\<lparr> ctx_state := Closed \<rparr>] else cs)"

text \<open>\<open>sourcesRef.current.forEach(s => s.stop())\<close>\<close>

definition stop_source :: "nat \<Rightarrow> buffer_source list \<Rightarrow> buffer_source list" where
  "stop_source i bs = bs[i := (bs ! i)\<lparr> src_stopped := True \<rparr>]"

definition stop_all :: "nat list \<Rightarrow> buffer_source list \<Rightarrow> buffer_source list" where
  "stop_all ids bs = fold stop_source ids bs"

definition cleanup :: "live_state \<Rightarrow> live_state" where
  "cleanup st =
     st\<lparr> sessions := close_session (sessionRef st) (sessions st),
          streams := stop_tracks (streamRef st) (streams st),
          processors := disconnect_processor (processorRef st) (processors st),
          micSources := disconnect_source (sourceRef st) (micSources st),
          contexts := close_context (audioContextRef st)
                        (close_context (inputContextRef st) (contexts st)),
          bufferSources := stop_all (sourcesRef st) (bufferSources st),
          sourcesRef := [],
          connected := False,
          isTalking := False \<rparr>"

section \<open>LiveAssistant: startSession and its callbacks\<close>

text \<open>
  \<open>startSession\<close> up to \<open>await getUserMedia\<close> (lines 42 to 50): the error is cleared and
  two fresh audio contexts replace the referenced ones.
\<close>

definition startSession_begin :: "live_state \<Rightarrow> live_state" where
  "startSession_begin st =
     st\<lparr> error := None,
          contexts := contexts st @ [\<lparr> sampleRate = 16000, ctx_state = Running \<rparr>,
                                     \<lparr> sampleRate = 24000, ctx_state = Running \<rparr>],
          inputContextRef := Some (length (contexts st)),
          audioContextRef := Some (Suc (length (contexts st))),
          pendingStarts := Suc (pendingStarts st) \<rparr>"

text \<open>
  The continuation when \<open>getUserMedia\<close> resolves with a stream of \<open>n\<close> tracks (lines 51
  to 129): the stream is stored, \<open>ai.live.connect\<close> starts a new session, and a handle
  that closes this session is stored.
\<close>

definition startSession_granted :: "nat \<Rightarrow> live_state \<Rightarrow> live_state" where
  "startSession_granted n st =
     st\<lparr> streams := streams st @ [replicate n True],
          streamRef := Some (length (streams st)),
          sessions := sessions st @ [\<lparr> sess_status = Connecting, sess_stream = length (streams st) \<rparr>],
          sessionRef := Some (length (sessions st)),
          pendingStarts := pendingStarts st - 1 \<rparr>"

text \<open>The \<open>catch\<close> block (lines 131 to 135), when \<open>getUserMedia\<close> rejects.\<close>

definition startSession_failed :: "live_state \<Rightarrow> live_state" where
  "startSession_failed st =
     cleanup (st\<lparr> error := Some ''Failed to start session. Check permissions.'',
                  pendingStarts := pendingStarts st - 1 \<rparr>)"

text \<open>
  \<open>onopen\<close> of session \<open>i\<close> (lines 57 to 72): a source node is made from the stream of
  this call, a processor is made, the source is connected to the processor and the
  processor to the destination. \<open>inputContextRef.current!\<close> on a null reference throws,
  which ends the callback after \<open>setConnected(true)\<close>.
\<close>

definition onopen :: "nat \<Rightarrow> live_state \<Rightarrow> live_state" where
  "onopen i st =
     (case inputContextRef st of
        None \<Rightarrow> st\<lparr> connected := True \<rparr>
      | Some c \<Rightarrow>
          st\<lparr> connected := True,
               micSources := micSources st @
                 [\<lparr> mic_stream = sess_stream (sessions st ! i), mic_context = c,
                    mic_output = Some (length (processors st)) \<rparr>],
               sourceRef := Some (length (micSources st)),
               processors := processors st @
                 [\<lparr> bufferSize = 4096, numberOfInputChannels = 1, numberOfOutputChannels = 1,
                    proc_context = c, proc_session = i, proc_connected = True \<rparr>],
               processorRef := Some (length (processors st)) \<rparr>)"

text \<open>
  \<open>onaudioprocess\<close> of a processor (lines 65 to 69), for an event whose input buffer is a
  list of channels. \<open>createPcmBlob\<close> is imported from \<open>utils/audioUtils\<close> and is a
  parameter. The result is the session and the blob given to \<open>sendRealtimeInput\<close>;
  \<open>getChannelData(0)\<close> on a buffer without channels throws.
\<close>

definition onaudioprocess ::
  "('s list \<Rightarrow> 'b) \<Rightarrow> script_processor \<Rightarrow> 's list list \<Rightarrow> (nat \<times> 'b) option" where
  "onaudioprocess createPcmBlob proc inputBuffer =
     (case nth_opt inputBuffer 0 of
        None \<Rightarrow> None
      | Some inputData \<Rightarrow> Some (proc_session proc, createPcmBlob inputData))"

text \<open>
  The input buffer of an \<open>audioprocess\<close> event of a processor has the processor's number
  of input channels and \<open>bufferSize\<close> sample frames in each (Web Audio API).
\<close>

definition delivered_by :: "script_processor \<Rightarrow> 's list list \<Rightarrow> bool" where
  "delivered_by proc inputBuffer =
     (length inputBuffer = numberOfInputChannels proc
      \<and> list_all (\<lambda>ch. length ch = bufferSize proc) inputBuffer)"

text \<open>The interruption branch (lines 104 to 109).\<close>

definition interrupt :: "live_state \<Rightarrow> live_state" where
  "interrupt st =
     st\<lparr> bufferSources := stop_all (sourcesRef st) (bufferSources st),
          sourcesRef := [],
          nextStartTimeRef := 0,
          isTalking := False \<rparr>"

text \<open>
  \<open>onmessage\<close> up to its \<open>await\<close> (lines 75 to 84), with \<open>now\<close> the output context's
  \<open>currentTime\<close>. With inline audio data the call sets \<open>isTalking\<close>, raises the next start
  time and is then suspended in \<open>decodeAudioData\<close>; \<open>audioContextRef.current!\<close> on a null
  reference throws after \<open>setIsTalking(true)\<close>, which ends the call. Without audio data
  nothing is awaited and the interruption branch runs at once.
\<close>

definition onmessage_begin :: "real \<Rightarrow> live_server_message \<Rightarrow> live_state \<Rightarrow> live_state" where
  "onmessage_begin now msg st =
     (if truthy (inline_audio msg)
      then (case audioContextRef st of
              None \<Rightarrow> st\<lparr> isTalking := True \<rparr>
            | Some ctx \<Rightarrow>
                st\<lparr> isTalking := True,
                     nextStartTimeRef := max (nextStartTimeRef st) now,
                     pendingDecodes := pendingDecodes st @ [msg] \<rparr>)
      else if is_interrupted msg then interrupt st else st)"

text \<open>
  Lines 90 to 101, with \<open>d\<close> the duration of the decoded buffer: a new source node is
  started at the next start time as it is now, the next start time is advanced by \<open>d\<close>,
  and the node is added to the set (it is new, so it is appended).
\<close>

definition schedule_audio :: "real \<Rightarrow> live_state \<Rightarrow> live_state" where
  "schedule_audio d st =
     st\<lparr> bufferSources := bufferSources st @
            [\<lparr> startedAt = nextStartTimeRef st, duration = d,
               src_stopped = False, src_ended = False \<rparr>],
          nextStartTimeRef := nextStartTimeRef st + d,
          sourcesRef := sourcesRef st @ [length (bufferSources st)] \<rparr>"

text \<open>
  The continuation of \<open>onmessage\<close> for the message \<open>msg\<close> once its audio is decoded
  (lines 90 to 109). \<open>decodedDuration\<close> stands for the duration of the buffer that
  \<open>decodeAudioData(base64ToUint8Array(base64), ctx, 24000)\<close> returns; both helpers are
  imported from \<open>utils/audioUtils\<close>. It acts on the state of the moment it runs in.
\<close>

definition onmessage_resume ::
  "(string \<Rightarrow> real) \<Rightarrow> live_server_message \<Rightarrow> live_state \<Rightarrow> live_state" where
  "onmessage_resume decodedDuration msg st =
     (let st1 = schedule_audio (decodedDuration (the (inline_audio msg))) st
      in if is_interrupted msg then interrupt st1 else st1)"

text \<open>Taking the \<open>k\<close>-th suspended call off the list.\<close>

definition drop_pending :: "nat \<Rightarrow> live_state \<Rightarrow> live_state" where
  "drop_pending k st =
     st\<lparr> pendingDecodes := take k (pendingDecodes st) @ drop (Suc k) (pendingDecodes st) \<rparr>"

text \<open>The \<open>ended\<close> listener of source \<open>i\<close> (lines 94 to 97), run when the event fires.\<close>

definition onended :: "nat \<Rightarrow> live_state \<Rightarrow> live_state" where
  "onended i st =
     (let remaining = removeAll i (sourcesRef st)
      in st\<lparr> bufferSources := (bufferSources st)[i := (bufferSources st ! i)\<lparr> src_ended := True \<rparr>],
              sourcesRef := remaining,
              isTalking := (if remaining = [] then False else isTalking st) \<rparr>)"

definition onclose :: "live_state \<Rightarrow> live_state" where
  "onclose st = st\<lparr> connected := False \<rparr>"

definition onerror :: "live_state \<Rightarrow> live_state" where
  "onerror st = cleanup (st\<lparr> error := Some ''Connection error occurred.'' \<rparr>)"

section \<open>LiveAssistant: the panel as a state machine\<close>

text \<open>
  What can happen to the mounted panel. The start button is rendered while \<open>connected\<close>
  is false and the end button while it is true (lines 170 to 184); the other events come
  from the browser and the service. A message runs \<open>onmessage\<close> up to its \<open>await\<close>;
  \<open>Decoded k\<close> is the \<open>k\<close>-th suspended call going on with its decoded buffer, and
  \<open>DecodeFailed k\<close> is that call ending because the decode threw, which skips the rest of
  the handler. Any other event can come in between. \<open>step\<close> is \<open>None\<close> for an event that
  cannot happen in the state.
\<close>

datatype live_event =
    ClickStart
  | ClickEnd
  | MicGranted nat
  | MicDenied
  | Opened nat
  | Message nat real live_server_message
  | Decoded nat
  | DecodeFailed nat
  | ClosedByPeer nat
  | Errored nat
  | Ended nat

definition set_status :: "nat \<Rightarrow> session_status \<Rightarrow> live_state \<Rightarrow> live_state" where
  "set_status i s st = st\<lparr> sessions := (sessions st)[i := (sessions st ! i)\<lparr> sess_status := s \<rparr>] \<rparr>"

definition has_status :: "nat \<Rightarrow> session_status \<Rightarrow> live_state \<Rightarrow> bool" where
  "has_status i s st = (i < length (sessions st) \<and> sess_status (sessions st ! i) = s)"

definition step :: "(string \<Rightarrow> real) \<Rightarrow> live_event \<Rightarrow> live_state \<Rightarrow> live_state option" where
  "step decodedDuration ev st =
     (case ev of
        ClickStart \<Rightarrow> if \<not> connected st then Some (startSession_begin st) else None
      | ClickEnd \<Rightarrow> if connected st then Some (cleanup st) else None
      | MicGranted n \<Rightarrow>
          if 0 < pendingStarts st \<and> 0 < n then Some (startSession_granted n st) else None
      | MicDenied \<Rightarrow> if 0 < pendingStarts st then Some (startSession_failed st) else None
      | Opened i \<Rightarrow>
          if has_status i Connecting st then Some (onopen i (set_status i Open st)) else None
      | Message i now msg \<Rightarrow>
          if has_status i Open st then Some (onmessage_begin now msg st) else None
      | Decoded k \<Rightarrow>
          if k < length (pendingDecodes st)
          then Some (onmessage_resume decodedDuration (pendingDecodes st ! k) (drop_pending k st))
          else None
      | DecodeFailed k \<Rightarrow>
          if k < length (pendingDecodes st) then Some (drop_pending k st) else None
      | ClosedByPeer i \<Rightarrow>
          if has_status i Open st then Some (onclose (set_status i SessionClosed st)) else None
      | Errored i \<Rightarrow>
          if i < length (sessions st) then Some (onerror st) else None
      | Ended i \<Rightarrow>
          if i < length (bufferSources st) \<and> \<not> src_ended (bufferSources st ! i)
          then Some (onended i st) else None)"

fun run :: "(string \<Rightarrow> real) \<Rightarrow> live_event list \<Rightarrow> live_state \<Rightarrow> live_state option" where
  "run decodedDuration [] st = Some st"
| "run decodedDuration (ev # evs) st =
     (case step decodedDuration ev st of
        None \<Rightarrow> None
      | Some st' \<Rightarrow> run decodedDuration evs st')"

text \<open>The number of streaming sessions that are open.\<close>

definition open_sessions :: "live_state \<Rightarrow> nat" where
  "open_sessions st = length (filter (\<lambda>s. sess_status s = Open) (sessions st))"



text \<open>
  What holds in every state the panel can reach: a started source that is neither stopped
  nor ended is in the set; the set holds only sources that exist; and once \<open>startSession\<close>
  has been called the output context reference is set.
\<close>

definition live_inv :: "live_state \<Rightarrow> bool" where
  "live_inv st =
     ((\<forall>s<length (bufferSources st).
         s \<in> set (sourcesRef st) \<or> src_stopped (bufferSources st ! s)
           \<or> src_ended (bufferSources st ! s))
      \<and> (\<forall>s\<in>set (sourcesRef st). s < length (bufferSources st))
      \<and> (sessions st \<noteq> [] \<or> 0 < pendingStarts st \<longrightarrow> audioContextRef st \<noteq> None))"


text \<open>
  Also in every reachable state: once \<open>startSession\<close> has been called the input context
  reference is set, and the context it names exists and was made with a 16000 Hz rate; and
  the stream of every session exists.
\<close>

definition input_inv :: "live_state \<Rightarrow> bool" where
  "input_inv st =
     ((sessions st \<noteq> [] \<or> 0 < pendingStarts st \<longrightarrow> inputContextRef st \<noteq> None)
      \<and> (\<forall>c. inputContextRef st = Some c \<longrightarrow>
             c < length (contexts st) \<and> sampleRate (contexts st ! c) = 16000)
      \<and> (\<forall>i<length (sessions st). sess_stream (sessions st ! i) < length (streams st)))"

section \<open>Facts about splitting\<close>


lemma split_on_no_sep: "sep \<notin> set s \<Longrightarrow> split_on sep s = [s]"
  by (induction s) auto





section \<open>Properties of blobToBase64\<close>



section \<open>Properties of sendMessage\<close>

text \<open>
  C8. When the trimmed input is empty and no image is uploaded, and also when a request is
  already in flight, \<open>sendMessage\<close> changes nothing: the whole state, and so the messages,
  the input text, the uploaded image and the loading flag, is as before.
\<close>

theorem sendMessage_guard_noop:
  "(trim (input st) = [] \<and> uploadedImage st = None) \<or> isLoading st \<Longrightarrow>
     sendMessage env st = st"
  by (auto simp: sendMessage_def sendMessage_guard_def truthy_def)

theorem sendMessage_guard_noop_witness:
  "sendMessage
     \<lparr> generateContent = (\<lambda>r. Inl (ChatThrown None)), now_user_id = 1, now_user_ts = 2,
        now_bot_id = 3, now_bot_ts = 4 \<rparr>
     \<lparr> messages = [], input = [0x00A0, 0x0020, 0x2028], isLoading = False, mode = Fast,
       uploadedImage = None \<rparr>
   = \<lparr> messages = [], input = [0x00A0, 0x0020, 0x2028], isLoading = False, mode = Fast,
       uploadedImage = None \<rparr>
   \<and> sendMessage
     \<lparr> generateContent = (\<lambda>r. Inl (ChatThrown None)), now_user_id = 1, now_user_ts = 2,
        now_bot_id = 3, now_bot_ts = 4 \<rparr>
     \<lparr> messages = [], input = js ''hi'', isLoading = True, mode = Fast,
       uploadedImage = Some ''QQ=='' \<rparr>
   = \<lparr> messages = [], input = js ''hi'', isLoading = True, mode = Fast,
       uploadedImage = Some ''QQ=='' \<rparr>"
proof -
  let ?env = "\<lparr> generateContent = (\<lambda>r. Inl (ChatThrown None)), now_user_id = 1, now_user_ts = 2,
        now_bot_id = 3, now_bot_ts = 4 \<rparr>"
  let ?s1 = "\<lparr> messages = [], input = [0x00A0, 0x0020, 0x2028], isLoading = False, mode = Fast,
               uploadedImage = None \<rparr>"
  let ?s2 = "\<lparr> messages = [], input = js ''hi'', isLoading = True, mode = Fast,
               uploadedImage = Some ''QQ=='' \<rparr>"
  have a: "(trim (input ?s1) = [] \<and> uploadedImage ?s1 = None) \<or> isLoading ?s1"
    by (simp add: trim_def is_space_def)
  have b: "(trim (input ?s2) = [] \<and> uploadedImage ?s2 = None) \<or> isLoading ?s2"
    by simp
  show ?thesis
    using sendMessage_guard_noop [of ?s1 ?env, OF a] sendMessage_guard_noop [of ?s2 ?env, OF b]
    by simp
qed

text \<open>
  C9. A call that passes the guard turns the list \<open>ms\<close> into \<open>ms @ [u, b]\<close>: the old
  messages are kept as they are, \<open>u\<close> is the user message with the input text and the
  uploaded image if there is one, and \<open>b\<close> is one message of role model whose text is the
  response text, the fixed fallback when the response has no text, or the error text when
  the request throws; the loading flag is false afterwards in both cases.
\<close>

theorem sendMessage_appends_two:
  "\<not> sendMessage_guard st \<Longrightarrow>
     (\<exists>u b. messages (sendMessage env st) = messages st @ [u, b]
        \<and> msg_role u = User \<and> msg_text u = input st
        \<and> msg_images u = (case uploadedImage st of
                             None \<Rightarrow> None
                           | Some img \<Rightarrow> if img = [] then None else Some [img])
        \<and> msg_role b = Model
        \<and> msg_text b =
            (case generateContent env (build_request (mode st) u) of
               Inr response \<Rightarrow>
                 (case resp_text response of
                    None \<Rightarrow> js ''I processed that, but have no text response.''
                  | Some t \<Rightarrow>
                      if t = [] then js ''I processed that, but have no text response.'' else t)
             | Inl (ChatThrown message) \<Rightarrow>
                 js ''Error: '' @ (case message of None \<Rightarrow> js ''undefined'' | Some m \<Rightarrow> m)))
     \<and> isLoading (sendMessage env st) = False"
proof -
  assume g: "\<not> sendMessage_guard st"
  let ?u = "userMsg env st"
  let ?b = "botMsg env (generateContent env (build_request (mode st) ?u))"
  have m: "messages (sendMessage env st) = messages st @ [?u, ?b]"
    using g by (simp add: sendMessage_def sendMessage_finish_def sendMessage_begin_def)
  have l: "isLoading (sendMessage env st) = False"
    using g by (simp add: sendMessage_def sendMessage_finish_def)
  have u: "msg_role ?u = User \<and> msg_text ?u = input st
        \<and> msg_images ?u = (case uploadedImage st of
                             None \<Rightarrow> None
                           | Some img \<Rightarrow> if img = [] then None else Some [img])"
    by (simp add: userMsg_def truthy_def split: option.splits)
  have b: "msg_role ?b = Model \<and> msg_text ?b =
            (case generateContent env (build_request (mode st) ?u) of
               Inr response \<Rightarrow>
                 (case resp_text response of
                    None \<Rightarrow> js ''I processed that, but have no text response.''
                  | Some t \<Rightarrow>
                      if t = [] then js ''I processed that, but have no text response.'' else t)
             | Inl (ChatThrown message) \<Rightarrow>
                 js ''Error: '' @ (case message of None \<Rightarrow> js ''undefined'' | Some m \<Rightarrow> m))"
    by (simp add: botMsg_def truthy_def split: sum.splits option.splits chat_thrown.splits)
  from m u b l show ?thesis by blast
qed

theorem sendMessage_appends_two_witness:
  "(let env = \<lparr> generateContent = (\<lambda>r. Inr \<lparr> resp_text = Some (js ''yo''), resp_grounding = None \<rparr>),
                now_user_id = 1, now_user_ts = 2, now_bot_id = 3, now_bot_ts = 4 \<rparr>;
        st = \<lparr> messages = [], input = [0x00A0, 0x0068, 0x0069], isLoading = False, mode = Fast,
               uploadedImage = None \<rparr>
    in \<not> sendMessage_guard st
       \<and> messages (sendMessage env st)
           = [\<lparr> msg_id = ''1'', msg_role = User, msg_text = [0x00A0, 0x0068, 0x0069],
                msg_images = None, msg_timestamp = 2, msg_groundingMetadata = None \<rparr>,
              \<lparr> msg_id = ''4'', msg_role = Model, msg_text = js ''yo'', msg_images = None,
                msg_timestamp = 4, msg_groundingMetadata = None \<rparr>]
       \<and> isLoading (sendMessage env st) = False)"
proof -
  let ?env = "\<lparr> generateContent = (\<lambda>r. Inr \<lparr> resp_text = Some (js ''yo''), resp_grounding = None \<rparr>),
          now_user_id = 1, now_user_ts = 2, now_bot_id = 3, now_bot_ts = 4 \<rparr>"
  let ?st = "\<lparr> messages = [], input = [0x00A0, 0x0068, 0x0069], isLoading = False, mode = Fast,
          uploadedImage = None \<rparr>"
  have g: "\<not> sendMessage_guard ?st"
    by (simp add: sendMessage_guard_def trim_def is_space_def truthy_def)
  have m: "messages (sendMessage ?env ?st)
     = [\<lparr> msg_id = ''1'', msg_role = User, msg_text = [0x00A0, 0x0068, 0x0069],
          msg_images = None, msg_timestamp = 2, msg_groundingMetadata = None \<rparr>,
        \<lparr> msg_id = ''4'', msg_role = Model, msg_text = js ''yo'', msg_images = None,
          msg_timestamp = 4, msg_groundingMetadata = None \<rparr>]"
    using g by (simp add: sendMessage_def sendMessage_finish_def sendMessage_begin_def
        userMsg_def botMsg_def truthy_def js_def)
  from g m sendMessage_appends_two [of ?st ?env, OF g] show ?thesis
    unfolding Let_def by simp
qed

section \<open>Properties of handleGenerate\<close>

text \<open>
  C10. With an uploaded image and an API key, \<open>handleGenerate\<close> sends one request, whose
  model and image size are fixed by the quality: \<open>1K\<close> gives \<open>gemini-2.5-flash-image\<close>
  and no \<open>imageConfig\<close>; \<open>2K\<close> and \<open>4K\<close> give \<open>gemini-3-pro-image-preview\<close> with
  \<open>imageConfig.imageSize\<close> equal to the quality. Without an image or without a key (null
  or empty) it returns with the state unchanged and nothing sent.
\<close>

theorem handleGenerate_quality:
  "(truthy (originalImage st) \<and> truthy (API_KEY env) \<longrightarrow>
      (\<exists>request rest. snd (handleGenerate env st) = Sent request # rest
         \<and> (\<forall>r. Sent r \<notin> set rest)
         \<and> img_model request =
             (case quality st of
                Q1K \<Rightarrow> ''gemini-2.5-flash-image''
              | Q2K \<Rightarrow> ''gemini-3-pro-image-preview''
              | Q4K \<Rightarrow> ''gemini-3-pro-image-preview'')
         \<and> img_imageSize request =
             (case quality st of Q1K \<Rightarrow> None | Q2K \<Rightarrow> Some ''2K'' | Q4K \<Rightarrow> Some ''4K'')))
   \<and> (\<not> truthy (originalImage st) \<or> \<not> truthy (API_KEY env) \<longrightarrow>
        handleGenerate env st = (st, []))"
proof (intro conjI impI)
  assume g: "truthy (originalImage st) \<and> truthy (API_KEY env)"
  let ?r = "studio_request st"
  have "\<exists>rest. snd (handleGenerate env st) = Sent ?r # rest \<and> (\<forall>r. Sent r \<notin> set rest)"
    using g by (simp add: handleGenerate_def Let_def split: sum.splits option.splits)
  moreover have "img_model ?r =
             (case quality st of
                Q1K \<Rightarrow> ''gemini-2.5-flash-image''
              | Q2K \<Rightarrow> ''gemini-3-pro-image-preview''
              | Q4K \<Rightarrow> ''gemini-3-pro-image-preview'')"
    by (cases "quality st") (simp_all add: studio_request_def studio_model_def)
  moreover have "img_imageSize ?r =
             (case quality st of Q1K \<Rightarrow> None | Q2K \<Rightarrow> Some ''2K'' | Q4K \<Rightarrow> Some ''4K'')"
    by (cases "quality st") (simp_all add: studio_request_def quality_string_def)
  ultimately show "\<exists>request rest. snd (handleGenerate env st) = Sent request # rest
         \<and> (\<forall>r. Sent r \<notin> set rest)
         \<and> img_model request =
             (case quality st of
                Q1K \<Rightarrow> ''gemini-2.5-flash-image''
              | Q2K \<Rightarrow> ''gemini-3-pro-image-preview''
              | Q4K \<Rightarrow> ''gemini-3-pro-image-preview'')
         \<and> img_imageSize request =
             (case quality st of Q1K \<Rightarrow> None | Q2K \<Rightarrow> Some ''2K'' | Q4K \<Rightarrow> Some ''4K'')"
    by blast
next
  assume "\<not> truthy (originalImage st) \<or> \<not> truthy (API_KEY env)"
  then show "handleGenerate env st = (st, [])"
    by (auto simp: handleGenerate_def)
qed

theorem handleGenerate_quality_witness:
  "(let st = \<lparr> originalImage = Some ''aGk='', generatedImage = None,
               prompt = ''Een strakke betonvloer'', loading = False, quality = Q4K \<rparr>;
        env = \<lparr> API_KEY = Some ''k'',
                generateImage = (\<lambda>r. Inr (Some [InlineDataPart ''image/png'' ''QQ==''])) \<rparr>;
        env' = \<lparr> API_KEY = None, generateImage = (\<lambda>r. Inr None) \<rparr>
    in truthy (originalImage st) \<and> truthy (API_KEY env)
       \<and> (\<exists>request rest. snd (handleGenerate env st) = Sent request # rest
             \<and> img_model request = ''gemini-3-pro-image-preview''
             \<and> img_imageSize request = Some ''4K'')
       \<and> \<not> truthy (API_KEY env')
       \<and> handleGenerate env' st = (st, []))"
proof -
  let ?st = "\<lparr> originalImage = Some ''aGk='', generatedImage = None,
        prompt = ''Een strakke betonvloer'', loading = False, quality = Q4K \<rparr>"
  let ?e1 = "\<lparr> API_KEY = Some ''k'',
        generateImage = (\<lambda>r. Inr (Some [InlineDataPart ''image/png'' ''QQ==''])) \<rparr>"
  let ?e2 = "\<lparr> API_KEY = None, generateImage = (\<lambda>r. Inr None) \<rparr>"
  have g1: "truthy (originalImage ?st) \<and> truthy (API_KEY ?e1)"
    by (simp add: truthy_def)
  have g2: "\<not> truthy (API_KEY ?e2)"
    by (simp add: truthy_def)
  have a: "\<exists>request rest. snd (handleGenerate ?e1 ?st) = Sent request # rest
             \<and> img_model request = ''gemini-3-pro-image-preview''
             \<and> img_imageSize request = Some ''4K''"
    using handleGenerate_quality [of ?st ?e1] g1 by auto
  have b: "handleGenerate ?e2 ?st = (?st, [])"
    using handleGenerate_quality [of ?st ?e2] g2 by blast
  from g1 g2 a b show ?thesis unfolding Let_def by blast
qed

section \<open>Properties of the polling loop\<close>

lemma poll_done: "op_done operation \<Longrightarrow> poll getOp k operation trace = Some (trace, Inr operation)"
  by (subst poll.simps) simp

lemma poll_step:
  "\<not> op_done operation \<Longrightarrow> getOp k = Inr operation' \<Longrightarrow>
     poll getOp k operation trace = poll getOp (Suc k) operation' (trace @ poll_turn)"
  by (subst poll.simps) simp

lemma poll_throw:
  "\<not> op_done operation \<Longrightarrow> getOp k = Inl err \<Longrightarrow>
     poll getOp k operation trace = Some (trace @ poll_turn, Inl err)"
  by (subst poll.simps) simp

text \<open>
  If the operations in hand at tests \<open>0, \<dots>, m - 1\<close> (counted from the one in hand at
  poll \<open>k\<close>) are not done and the one at test \<open>m\<close> is, the loop makes exactly \<open>m\<close> turns.
\<close>

lemma poll_turns:
  "(\<forall>j<m. \<exists>operation'. operation_at (\<lambda>i. getOp (k + i)) operation j = Inr operation'
             \<and> \<not> op_done operation') \<Longrightarrow>
   operation_at (\<lambda>i. getOp (k + i)) operation m = Inr final \<Longrightarrow> op_done final \<Longrightarrow>
   poll getOp k operation trace = Some (trace @ concat (replicate m poll_turn), Inr final)"
proof (induction m arbitrary: k operation trace)
  case 0
  then show ?case by (simp add: operation_at_def poll_done)
next
  case (Suc m)
  from Suc.prems(1) have nd: "\<not> op_done operation"
    by (auto simp: operation_at_def dest: spec [of _ 0])
  show ?case
  proof (cases m)
    case 0
    with Suc.prems have g: "getOp k = Inr final" by (simp add: operation_at_def)
    show ?thesis
      using 0 Suc.prems(3) nd g by (simp add: poll_step poll_done)
  next
    case (Suc m')
    from Suc.prems(1) obtain operation' where
      g: "getOp k = Inr operation'" and "\<not> op_done operation'"
      using Suc by (auto simp: operation_at_def dest: spec [of _ 1])
    have a: "\<forall>j<m. \<exists>o'. operation_at (\<lambda>i. getOp (Suc k + i)) operation' j = Inr o'
               \<and> \<not> op_done o'"
    proof (intro allI impI)
      fix j assume "j < m"
      then have "Suc j < Suc m" by simp
      with Suc.prems(1) obtain o' where
        "operation_at (\<lambda>i. getOp (k + i)) operation (Suc j) = Inr o'" "\<not> op_done o'"
        by blast
      then show "\<exists>o'. operation_at (\<lambda>i. getOp (Suc k + i)) operation' j = Inr o' \<and> \<not> op_done o'"
        using g by (cases j) (auto simp: operation_at_def)
    qed
    have b: "operation_at (\<lambda>i. getOp (Suc k + i)) operation' m = Inr final"
      using Suc.prems(2) Suc by (simp add: operation_at_def)
    have "poll getOp (Suc k) operation' (trace @ poll_turn)
            = Some ((trace @ poll_turn) @ concat (replicate m poll_turn), Inr final)"
      by (rule Suc.IH [OF a b Suc.prems(3)])
    then show ?thesis using nd g by (simp add: poll_step)
  qed
qed

lemma veo_failed_shape:
  "\<exists>st' rest. veo_failed env err st trace = (st', trace @ rest)
     \<and> GetVideosOperation \<notin> set rest \<and> (\<forall>d. Sleep d \<notin> set rest) \<and> (\<forall>u. Fetch u \<notin> set rest)"
  by (cases err) (auto simp: veo_failed_def split: option.splits)

lemma veo_download_shape:
  "\<exists>st' rest. veo_download env operation st trace = (st', trace @ rest)
     \<and> GetVideosOperation \<notin> set rest \<and> (\<forall>d. Sleep d \<notin> set rest)
     \<and> (if truthy (op_uri operation) \<and> truthy (veo_API_KEY env)
         then \<exists>rest'. rest = SetStatus ''Downloading video...''
                          # Fetch (the (op_uri operation) @ ''&key='' @ the (veo_API_KEY env)) # rest'
                \<and> (\<forall>u. Fetch u \<notin> set rest')
         else \<forall>u. Fetch u \<notin> set rest)"
proof (cases "truthy (op_uri operation) \<and> truthy (veo_API_KEY env)")
  case False
  then show ?thesis
    using veo_failed_shape [of env "Thrown (Some ''No video URI returned'')" st trace]
    by (auto simp: veo_download_def)
next
  case True
  let ?url = "the (op_uri operation) @ ''&key='' @ the (veo_API_KEY env)"
  let ?tr = "trace @ [SetStatus ''Downloading video...'', Fetch ?url]"
  show ?thesis
  proof (cases "fetch_blob env ?url")
    case (Inr objectUrl)
    with True show ?thesis by (simp add: veo_download_def Let_def)
  next
    case (Inl err)
    obtain st' rest where r: "veo_failed env err (st\<lparr> status := ''Downloading video...'' \<rparr>) ?tr
        = (st', ?tr @ rest)"
      "GetVideosOperation \<notin> set rest" "\<forall>d. Sleep d \<notin> set rest" "\<forall>u. Fetch u \<notin> set rest"
      using veo_failed_shape [of env err "st\<lparr> status := ''Downloading video...'' \<rparr>" ?tr]
      by blast
    with True Inl show ?thesis by (simp add: veo_download_def Let_def)
  qed
qed

lemma checkApiKey_quiet:
  "checkApiKey env = (b, acts) \<Longrightarrow>
     (\<forall>u. Fetch u \<notin> set acts) \<and> GetVideosOperation \<notin> set acts \<and> (\<forall>d. Sleep d \<notin> set acts)"
  by (auto simp: checkApiKey_def split: option.splits if_splits)

text \<open>
  C4. After \<open>generateVideos\<close> has returned an operation, the loop tests the operation in
  hand, and for each one that is not done sets the status, waits 5000 ms and fetches the
  operation again. If the operations in hand at tests \<open>0, \<dots>, m - 1\<close> are not done and the
  one at test \<open>m\<close> is done, the call returns, and its actions are the start of the
  generation, then exactly \<open>m\<close> turns, each a status update, a wait of 5000 ms and a
  refetch, then the rest: no URI is fetched before the loop has ended, no wait or refetch
  happens after it, and when the final operation has a URI (and the key is set) the rest
  starts with the download of that URI.
\<close>

theorem generateVideo_polls_until_done:
  assumes "veo_prompt st \<noteq> []"
    and "checkApiKey env = (True, acts)"
    and "generateVideos env (veo_request_of st) = Inr operation0"
    and "\<forall>j<m. \<exists>operation'. operation_at (getVideosOperation env) operation0 j = Inr operation'
             \<and> \<not> op_done operation'"
    and "operation_at (getVideosOperation env) operation0 m = Inr final"
    and "op_done final"
  shows "\<exists>st' rest.
      generateVideo env st
        = Some (st', (acts @ veo_start_log st)
             @ concat (replicate m [SetStatus ''Rendering video... this may take a minute.'',
                                    Sleep 5000, GetVideosOperation])
             @ rest)
      \<and> (\<forall>u. Fetch u \<notin> set (acts @ veo_start_log st))
      \<and> GetVideosOperation \<notin> set (acts @ veo_start_log st)
      \<and> (\<forall>d. Sleep d \<notin> set (acts @ veo_start_log st))
      \<and> GetVideosOperation \<notin> set rest \<and> (\<forall>d. Sleep d \<notin> set rest)
      \<and> (if truthy (op_uri final) \<and> truthy (veo_API_KEY env)
          then \<exists>rest'. rest = SetStatus ''Downloading video...''
                          # Fetch (the (op_uri final) @ ''&key='' @ the (veo_API_KEY env)) # rest'
                 \<and> (\<forall>u. Fetch u \<notin> set rest')
          else \<forall>u. Fetch u \<notin> set rest)"
proof -
  let ?st1 = "st\<lparr> veo_loading := True, videoUrl := None \<rparr>"
  let ?t0 = "acts @ veo_start_log st"
  let ?t1 = "?t0 @ concat (replicate m poll_turn)"
  have p: "poll (getVideosOperation env) 0 operation0 ?t0 = Some (?t1, Inr final)"
    using poll_turns [of m "getVideosOperation env" 0 operation0 final ?t0] assms(4-6)
    by simp
  have g: "generateVideo env st = Some (veo_download env final ?st1 ?t1)"
    using assms(1-3) p by (simp add: generateVideo_def Let_def)
  obtain st' rest where d: "veo_download env final ?st1 ?t1 = (st', ?t1 @ rest)"
    and r: "GetVideosOperation \<notin> set rest" "\<forall>d. Sleep d \<notin> set rest"
      "if truthy (op_uri final) \<and> truthy (veo_API_KEY env)
          then \<exists>rest'. rest = SetStatus ''Downloading video...''
                          # Fetch (the (op_uri final) @ ''&key='' @ the (veo_API_KEY env)) # rest'
                 \<and> (\<forall>u. Fetch u \<notin> set rest')
          else \<forall>u. Fetch u \<notin> set rest"
    using veo_download_shape [of env final ?st1 ?t1] by blast
  have n: "(\<forall>u. Fetch u \<notin> set ?t0) \<and> GetVideosOperation \<notin> set ?t0 \<and> (\<forall>d. Sleep d \<notin> set ?t0)"
    using checkApiKey_quiet [OF assms(2)] by (auto simp: veo_start_log_def)
  from g d have "generateVideo env st
      = Some (st', ?t0 @ concat (replicate m [SetStatus ''Rendering video... this may take a minute.'',
                                    Sleep 5000, GetVideosOperation]) @ rest)"
    by (simp add: poll_turn_def)
  with n r show ?thesis by blast
qed

theorem generateVideo_polls_until_done_witness:
  "(let env = \<lparr> aistudio = Some \<lparr> hasSelectedApiKey = True, openSelectKey_resolves = True \<rparr>,
                veo_API_KEY = Some ''k'',
                generateVideos = (\<lambda>r. Inr \<lparr> op_done = False, op_uri = None \<rparr>),
                getVideosOperation =
                  (\<lambda>k. Inr \<lparr> op_done = (1 \<le> k),
                              op_uri = (if 1 \<le> k then Some ''https://v/1?a=b'' else None) \<rparr>),
                fetch_blob = (\<lambda>u. Inr ''blob:1'') \<rparr>;
        st = \<lparr> veo_prompt = ''a cat'', veo_loading = False, videoUrl = None,
               uploadImage = None, status = [] \<rparr>;
        operation0 = \<lparr> op_done = False, op_uri = None \<rparr>;
        final = \<lparr> op_done = True, op_uri = Some ''https://v/1?a=b'' \<rparr>
    in veo_prompt st \<noteq> []
       \<and> checkApiKey env = (True, [])
       \<and> generateVideos env (veo_request_of st) = Inr operation0
       \<and> (\<forall>j<2. \<exists>operation'. operation_at (getVideosOperation env) operation0 j = Inr operation'
              \<and> \<not> op_done operation')
       \<and> operation_at (getVideosOperation env) operation0 2 = Inr final
       \<and> op_done final
       \<and> (\<exists>st' rest'.
            generateVideo env st
              = Some (st',
                  [SetStatus ''Initializing generation...'',
                   SetStatus ''Generating video from text...'',
                   GenerateVideos
                     \<lparr> vid_model = ''veo-3.1-fast-generate-preview'', vid_prompt = ''a cat'',
                       vid_image = None, vid_numberOfVideos = 1, vid_resolution = ''720p'',
                       vid_aspectRatio = ''16:9'' \<rparr>,
                   SetStatus ''Rendering video... this may take a minute.'', Sleep 5000,
                   GetVideosOperation,
                   SetStatus ''Rendering video... this may take a minute.'', Sleep 5000,
                   GetVideosOperation,
                   SetStatus ''Downloading video...'', Fetch ''https://v/1?a=b&key=k'']
                  @ rest')
            \<and> (\<forall>u. Fetch u \<notin> set rest')))"
proof -
  let ?env = "\<lparr> aistudio = Some \<lparr> hasSelectedApiKey = True, openSelectKey_resolves = True \<rparr>,
                veo_API_KEY = Some ''k'',
                generateVideos = (\<lambda>r. Inr \<lparr> op_done = False, op_uri = None \<rparr>),
                getVideosOperation =
                  (\<lambda>k. Inr \<lparr> op_done = (1 \<le> k),
                              op_uri = (if 1 \<le> k then Some ''https://v/1?a=b'' else None) \<rparr>),
                fetch_blob = (\<lambda>u. Inr ''blob:1'') \<rparr>"
  let ?st = "\<lparr> veo_prompt = ''a cat'', veo_loading = False, videoUrl = None,
               uploadImage = None, status = [] \<rparr>"
  let ?o = "\<lparr> op_done = False, op_uri = None \<rparr>"
  let ?f = "\<lparr> op_done = True, op_uri = Some ''https://v/1?a=b'' \<rparr>"
  have h1: "veo_prompt ?st \<noteq> []" by simp
  have h2: "checkApiKey ?env = (True, [])" by (simp add: checkApiKey_def)
  have h3: "generateVideos ?env (veo_request_of ?st) = Inr ?o" by simp
  have h4: "\<forall>j<2. \<exists>operation'. operation_at (getVideosOperation ?env) ?o j = Inr operation'
              \<and> \<not> op_done operation'"
    by (auto simp: operation_at_def less_Suc_eq split: nat.splits)
  have h5: "operation_at (getVideosOperation ?env) ?o 2 = Inr ?f"
    by (simp add: operation_at_def numeral_2_eq_2)
  have h6: "op_done ?f" by simp
  have t: "truthy (op_uri ?f) \<and> truthy (veo_API_KEY ?env)" by (simp add: truthy_def)
  from generateVideo_polls_until_done [OF h1 h2 h3 h4 h5 h6] t
  have "\<exists>st' rest'.
            generateVideo ?env ?st
              = Some (st',
                  [SetStatus ''Initializing generation...'',
                   SetStatus ''Generating video from text...'',
                   GenerateVideos
                     \<lparr> vid_model = ''veo-3.1-fast-generate-preview'', vid_prompt = ''a cat'',
                       vid_image = None, vid_numberOfVideos = 1, vid_resolution = ''720p'',
                       vid_aspectRatio = ''16:9'' \<rparr>,
                   SetStatus ''Rendering video... this may take a minute.'', Sleep 5000,
                   GetVideosOperation,
                   SetStatus ''Rendering video... this may take a minute.'', Sleep 5000,
                   GetVideosOperation,
                   SetStatus ''Downloading video...'', Fetch ''https://v/1?a=b&key=k'']
                  @ rest')
            \<and> (\<forall>u. Fetch u \<notin> set rest')"
    by (simp only: if_True)
       (simp add: veo_start_log_def veo_request_of_def truthy_def numeral_2_eq_2, blast)
  with h1 h2 h3 h4 h5 h6 show ?thesis unfolding Let_def by blast
qed

section \<open>Facts about the live session handlers\<close>

lemma nth_update_any: "xs[i := x] ! j = (if i = j \<and> i < length xs then x else xs ! j)"
  by (cases "i < length xs") (simp_all add: nth_list_update list_update_beyond)


lemma stop_source_length: "length (stop_source a bs) = length bs"
  by (simp add: stop_source_def)

lemma stop_source_nth:
  "j < length bs \<Longrightarrow>
     src_stopped (stop_source a bs ! j) = (j = a \<or> src_stopped (bs ! j))
     \<and> src_ended (stop_source a bs ! j) = src_ended (bs ! j)
     \<and> startedAt (stop_source a bs ! j) = startedAt (bs ! j)
     \<and> duration (stop_source a bs ! j) = duration (bs ! j)"
  by (auto simp: stop_source_def nth_update_any)

lemma stop_all_length: "length (stop_all ids bs) = length bs"
  unfolding stop_all_def by (induction ids arbitrary: bs) (simp_all add: stop_source_length)

lemma stop_all_stopped:
  "j < length bs \<Longrightarrow> src_stopped (stop_all ids bs ! j) = (j \<in> set ids \<or> src_stopped (bs ! j))"
  unfolding stop_all_def
  by (induction ids arbitrary: bs) (auto simp: stop_source_length stop_source_nth)

lemma stop_all_ended: "j < length bs \<Longrightarrow> src_ended (stop_all ids bs ! j) = src_ended (bs ! j)"
  unfolding stop_all_def
  by (induction ids arbitrary: bs) (auto simp: stop_source_length stop_source_nth)



lemma sess_stream_update:
  "map sess_stream (ss[i := (ss ! i)\<lparr> sess_status := s \<rparr>]) = map sess_stream ss"
  by (simp add: list_eq_iff_nth_eq nth_update_any)

lemma cleanup_fields:
  "bufferSources (cleanup st) = stop_all (sourcesRef st) (bufferSources st)"
  "sourcesRef (cleanup st) = []"
  "nextStartTimeRef (cleanup st) = nextStartTimeRef st"
  "audioContextRef (cleanup st) = audioContextRef st"
  "length (sessions (cleanup st)) = length (sessions st)"
  "pendingStarts (cleanup st) = pendingStarts st"
  "connected (cleanup st) = False"
  "isTalking (cleanup st) = False"
  "error (cleanup st) = error st"
  "pendingDecodes (cleanup st) = pendingDecodes st"
  "map sess_stream (sessions (cleanup st)) = map sess_stream (sessions st)"
  "length (streams (cleanup st)) = length (streams st)"
  by (simp_all add: cleanup_def close_session_def stop_tracks_def sess_stream_update
      split: option.splits)

lemma interrupt_fields:
  "bufferSources (interrupt st) = stop_all (sourcesRef st) (bufferSources st)"
  "sourcesRef (interrupt st) = []"
  "nextStartTimeRef (interrupt st) = 0"
  "audioContextRef (interrupt st) = audioContextRef st"
  "sessions (interrupt st) = sessions st"
  "pendingStarts (interrupt st) = pendingStarts st"
  "isTalking (interrupt st) = False"
  "pendingDecodes (interrupt st) = pendingDecodes st"
  by (simp_all add: interrupt_def)

lemma schedule_audio_fields:
  "bufferSources (schedule_audio d st) = bufferSources st @
     [\<lparr> startedAt = nextStartTimeRef st, duration = d,
        src_stopped = False, src_ended = False \<rparr>]"
  "sourcesRef (schedule_audio d st) = sourcesRef st @ [length (bufferSources st)]"
  "nextStartTimeRef (schedule_audio d st) = nextStartTimeRef st + d"
  "audioContextRef (schedule_audio d st) = audioContextRef st"
  "sessions (schedule_audio d st) = sessions st"
  "pendingStarts (schedule_audio d st) = pendingStarts st"
  "pendingDecodes (schedule_audio d st) = pendingDecodes st"
  by (simp_all add: schedule_audio_def)

lemma drop_pending_fields:
  "bufferSources (drop_pending k st) = bufferSources st"
  "sourcesRef (drop_pending k st) = sourcesRef st"
  "nextStartTimeRef (drop_pending k st) = nextStartTimeRef st"
  "audioContextRef (drop_pending k st) = audioContextRef st"
  "sessions (drop_pending k st) = sessions st"
  "pendingStarts (drop_pending k st) = pendingStarts st"
  "pendingDecodes (drop_pending k st) = take k (pendingDecodes st) @ drop (Suc k) (pendingDecodes st)"
  by (simp_all add: drop_pending_def)

lemma live_inv_init: "live_inv live_init"
  by (simp add: live_inv_def live_init_def)

lemma live_inv_stopped:
  assumes "live_inv st"
    and "bufferSources st' = stop_all (sourcesRef st) (bufferSources st)"
    and "sourcesRef st' = []"
    and "audioContextRef st' = audioContextRef st"
    and "length (sessions st') = length (sessions st)"
    and "pendingStarts st' = pendingStarts st"
  shows "live_inv st'"
proof -
  have "\<forall>s<length (bufferSources st).
          src_stopped (stop_all (sourcesRef st) (bufferSources st) ! s)
          \<or> src_ended (stop_all (sourcesRef st) (bufferSources st) ! s)"
    using assms(1) by (auto simp: live_inv_def stop_all_stopped stop_all_ended)
  moreover have "sessions st' \<noteq> [] \<or> 0 < pendingStarts st' \<longrightarrow> audioContextRef st' \<noteq> None"
    using assms(1,4,5,6) by (auto simp: live_inv_def)
  ultimately show ?thesis
    using assms(2,3) by (simp add: live_inv_def stop_all_length)
qed

lemma live_inv_cleanup: "live_inv st \<Longrightarrow> live_inv (cleanup st)"
  by (rule live_inv_stopped [of st]) (simp_all add: cleanup_fields)

lemma live_inv_interrupt: "live_inv st \<Longrightarrow> live_inv (interrupt st)"
  by (rule live_inv_stopped [of st]) (simp_all add: interrupt_fields)

lemma live_inv_schedule: "live_inv st \<Longrightarrow> live_inv (schedule_audio d st)"
  unfolding live_inv_def schedule_audio_fields
  by (auto simp: nth_append less_Suc_eq)

text \<open>A change of fields that the invariant does not read, or that only sets the reference.\<close>

lemma live_inv_frame:
  assumes "live_inv st"
    and "bufferSources st' = bufferSources st"
    and "sourcesRef st' = sourcesRef st"
    and "audioContextRef st' \<noteq> None
         \<or> (audioContextRef st' = audioContextRef st
            \<and> length (sessions st') = length (sessions st)
            \<and> pendingStarts st' \<le> pendingStarts st)"
  shows "live_inv st'"
proof -
  have "sessions st' \<noteq> [] \<or> 0 < pendingStarts st' \<longrightarrow> audioContextRef st' \<noteq> None"
    using assms(1,4) by (auto simp: live_inv_def)
  then show ?thesis
    using assms(1-3) by (simp add: live_inv_def)
qed

lemma live_inv_begin: "live_inv st \<Longrightarrow> live_inv (onmessage_begin now msg st)"
proof -
  assume i: "live_inv st"
  have a: "live_inv (st\<lparr> isTalking := True \<rparr>)"
    by (rule live_inv_frame [OF i]) simp_all
  have b: "live_inv (st\<lparr> isTalking := True,
                     nextStartTimeRef := max (nextStartTimeRef st) now,
                     pendingDecodes := pendingDecodes st @ [msg] \<rparr>)"
    by (rule live_inv_frame [OF i]) simp_all
  from a b i show ?thesis
    by (auto simp: onmessage_begin_def live_inv_interrupt split: option.splits)
qed

lemma live_inv_drop: "live_inv st \<Longrightarrow> live_inv (drop_pending k st)"
  by (rule live_inv_frame [of st]) (simp_all add: drop_pending_fields)

lemma live_inv_resume: "live_inv st \<Longrightarrow> live_inv (onmessage_resume dd msg st)"
  by (simp add: onmessage_resume_def Let_def live_inv_interrupt live_inv_schedule)

lemma live_inv_onended:
  assumes "live_inv st" and "i < length (bufferSources st)"
  shows "live_inv (onended i st)"
proof -
  let ?bs = "(bufferSources st)[i := (bufferSources st ! i)\<lparr> src_ended := True \<rparr>]"
  have f: "bufferSources (onended i st) = ?bs"
    "sourcesRef (onended i st) = removeAll i (sourcesRef st)"
    "audioContextRef (onended i st) = audioContextRef st"
    "sessions (onended i st) = sessions st"
    "pendingStarts (onended i st) = pendingStarts st"
    by (simp_all add: onended_def Let_def)
  show ?thesis
    unfolding live_inv_def f
    using assms by (auto simp: live_inv_def nth_update_any)
qed

lemma live_inv_step: "live_inv st \<Longrightarrow> step dd ev st = Some st' \<Longrightarrow> live_inv st'"
proof (cases ev)
  case ClickStart
  assume i: "live_inv st" and s: "step dd ev st = Some st'"
  have "live_inv (startSession_begin st)"
    by (rule live_inv_frame [OF i]) (simp_all add: startSession_begin_def)
  with s ClickStart show ?thesis by (simp add: step_def split: if_splits)
next
  case ClickEnd
  assume "live_inv st" "step dd ev st = Some st'"
  with ClickEnd show ?thesis by (auto simp: step_def live_inv_cleanup split: if_splits)
next
  case (MicGranted n)
  assume i: "live_inv st" and s: "step dd ev st = Some st'"
  have p: "0 < pendingStarts st" using s MicGranted by (simp add: step_def split: if_splits)
  have "audioContextRef st \<noteq> None"
    using i p by (simp add: live_inv_def)
  then have "live_inv (startSession_granted n st)"
    by (intro live_inv_frame [OF i]) (simp_all add: startSession_granted_def)
  with s MicGranted show ?thesis by (simp add: step_def split: if_splits)
next
  case MicDenied
  assume i: "live_inv st" and s: "step dd ev st = Some st'"
  have "live_inv (st\<lparr> error := Some ''Failed to start session. Check permissions.'',
                  pendingStarts := pendingStarts st - 1 \<rparr>)"
    by (rule live_inv_frame [OF i]) simp_all
  then have "live_inv (startSession_failed st)"
    unfolding startSession_failed_def by (rule live_inv_cleanup)
  with s MicDenied show ?thesis by (simp add: step_def split: if_splits)
next
  case (Opened k)
  assume i: "live_inv st" and s: "step dd ev st = Some st'"
  have a: "live_inv (set_status k Open st)"
    by (rule live_inv_frame [OF i]) (simp_all add: set_status_def)
  have "live_inv (onopen k (set_status k Open st))"
    by (rule live_inv_frame [OF a]) (simp_all add: onopen_def split: option.splits)
  with s Opened show ?thesis by (simp add: step_def split: if_splits)
next
  case (Message k now msg)
  assume "live_inv st" "step dd ev st = Some st'"
  with Message show ?thesis by (auto simp: step_def live_inv_begin split: if_splits)
next
  case (Decoded k)
  assume "live_inv st" "step dd ev st = Some st'"
  with Decoded show ?thesis
    by (auto simp: step_def live_inv_resume live_inv_drop split: if_splits)
next
  case (DecodeFailed k)
  assume "live_inv st" "step dd ev st = Some st'"
  with DecodeFailed show ?thesis by (auto simp: step_def live_inv_drop split: if_splits)
next
  case (ClosedByPeer k)
  assume i: "live_inv st" and s: "step dd ev st = Some st'"
  have a: "live_inv (set_status k SessionClosed st)"
    by (rule live_inv_frame [OF i]) (simp_all add: set_status_def)
  have "live_inv (onclose (set_status k SessionClosed st))"
    by (rule live_inv_frame [OF a]) (simp_all add: onclose_def)
  with s ClosedByPeer show ?thesis by (simp add: step_def split: if_splits)
next
  case (Errored k)
  assume i: "live_inv st" and s: "step dd ev st = Some st'"
  have "live_inv (st\<lparr> error := Some ''Connection error occurred.'' \<rparr>)"
    by (rule live_inv_frame [OF i]) simp_all
  then have "live_inv (onerror st)"
    unfolding onerror_def by (rule live_inv_cleanup)
  with s Errored show ?thesis by (simp add: step_def split: if_splits)
next
  case (Ended k)
  assume "live_inv st" "step dd ev st = Some st'"
  with Ended show ?thesis by (auto simp: step_def live_inv_onended split: if_splits)
qed

lemma live_inv_run: "live_inv st \<Longrightarrow> run dd evs st = Some st' \<Longrightarrow> live_inv st'"
proof (induction evs arbitrary: st)
  case Nil
  then show ?case by simp
next
  case (Cons ev evs)
  then show ?case
    by (auto split: option.splits dest: live_inv_step)
qed

lemma live_inv_reachable: "run dd evs live_init = Some st \<Longrightarrow> live_inv st"
  by (rule live_inv_run [OF live_inv_init])

lemma close_context_length: "length (close_context r cs) = length cs"
  by (simp add: close_context_def split: option.splits)

lemma close_context_sampleRate:
  "c < length cs \<Longrightarrow> sampleRate (close_context r cs ! c) = sampleRate (cs ! c)"
  by (simp add: close_context_def nth_update_any split: option.splits)


lemma input_inv_init: "input_inv live_init"
  by (simp add: input_inv_def live_init_def)

lemma input_inv_frame:
  assumes "input_inv st"
    and "contexts st' = contexts st"
    and "inputContextRef st' = inputContextRef st"
    and "map sess_stream (sessions st') = map sess_stream (sessions st)"
    and "length (streams st') = length (streams st)"
    and "pendingStarts st' \<le> pendingStarts st"
  shows "input_inv st'"
proof -
  have l: "length (sessions st') = length (sessions st)"
    using assms(4) by (metis length_map)
  have "\<forall>i<length (sessions st'). sess_stream (sessions st' ! i) = sess_stream (sessions st ! i)"
    using assms(4) l by (metis nth_map)
  then have "\<forall>i<length (sessions st'). sess_stream (sessions st' ! i) < length (streams st')"
    using assms(1,5) l by (simp add: input_inv_def)
  moreover have "sessions st' \<noteq> [] \<or> 0 < pendingStarts st' \<longrightarrow> inputContextRef st' \<noteq> None"
    using assms(1,3,6) l by (auto simp: input_inv_def)
  ultimately show ?thesis
    using assms(1,2,3) by (simp add: input_inv_def)
qed

lemma input_inv_cleanup: "input_inv st \<Longrightarrow> input_inv (cleanup st)"
proof -
  assume i: "input_inv st"
  let ?st' = "st\<lparr> contexts := contexts (cleanup st) \<rparr>"
  have f: "contexts (cleanup st) = close_context (audioContextRef st)
                        (close_context (inputContextRef st) (contexts st))"
    "inputContextRef (cleanup st) = inputContextRef st"
    by (simp_all add: cleanup_def)
  have a: "input_inv ?st'"
    using i unfolding input_inv_def
    by (auto simp: f close_context_length close_context_sampleRate)
  show ?thesis
    by (rule input_inv_frame [OF a]) (simp_all add: cleanup_fields f)
qed

lemma input_inv_step: "input_inv st \<Longrightarrow> step dd ev st = Some st' \<Longrightarrow> input_inv st'"
proof (cases ev)
  case ClickStart
  assume i: "input_inv st" and s: "step dd ev st = Some st'"
  have "input_inv (startSession_begin st)"
    using i by (auto simp: input_inv_def startSession_begin_def nth_append)
  with s ClickStart show ?thesis by (simp add: step_def split: if_splits)
next
  case ClickEnd
  assume "input_inv st" "step dd ev st = Some st'"
  with ClickEnd show ?thesis by (auto simp: step_def input_inv_cleanup split: if_splits)
next
  case (MicGranted n)
  assume i: "input_inv st" and s: "step dd ev st = Some st'"
  have p: "0 < pendingStarts st" using s MicGranted by (simp add: step_def split: if_splits)
  have "input_inv (startSession_granted n st)"
    using i p unfolding input_inv_def
    by (auto simp: startSession_granted_def nth_append less_Suc_eq)
  with s MicGranted show ?thesis by (simp add: step_def split: if_splits)
next
  case MicDenied
  assume i: "input_inv st" and s: "step dd ev st = Some st'"
  have "input_inv (st\<lparr> error := Some ''Failed to start session. Check permissions.'',
                  pendingStarts := pendingStarts st - 1 \<rparr>)"
    by (rule input_inv_frame [OF i]) simp_all
  then have "input_inv (startSession_failed st)"
    unfolding startSession_failed_def by (rule input_inv_cleanup)
  with s MicDenied show ?thesis by (simp add: step_def split: if_splits)
next
  case (Opened k)
  assume i: "input_inv st" and s: "step dd ev st = Some st'"
  have a: "input_inv (set_status k Open st)"
    by (rule input_inv_frame [OF i]) (simp_all add: set_status_def sess_stream_update)
  have "input_inv (onopen k (set_status k Open st))"
    by (rule input_inv_frame [OF a]) (simp_all add: onopen_def split: option.splits)
  with s Opened show ?thesis by (simp add: step_def split: if_splits)
next
  case (Message k now msg)
  assume i: "input_inv st" and s: "step dd ev st = Some st'"
  have "input_inv (onmessage_begin now msg st)"
    by (rule input_inv_frame [OF i])
       (simp_all add: onmessage_begin_def interrupt_def split: option.splits)
  with s Message show ?thesis by (simp add: step_def split: if_splits)
next
  case (Decoded k)
  assume i: "input_inv st" and s: "step dd ev st = Some st'"
  have "input_inv (onmessage_resume dd (pendingDecodes st ! k) (drop_pending k st))"
    by (rule input_inv_frame [OF i])
       (simp_all add: onmessage_resume_def schedule_audio_def interrupt_def drop_pending_def Let_def)
  with s Decoded show ?thesis by (simp add: step_def split: if_splits)
next
  case (DecodeFailed k)
  assume i: "input_inv st" and s: "step dd ev st = Some st'"
  have "input_inv (drop_pending k st)"
    by (rule input_inv_frame [OF i]) (simp_all add: drop_pending_def)
  with s DecodeFailed show ?thesis by (simp add: step_def split: if_splits)
next
  case (ClosedByPeer k)
  assume i: "input_inv st" and s: "step dd ev st = Some st'"
  have a: "input_inv (set_status k SessionClosed st)"
    by (rule input_inv_frame [OF i]) (simp_all add: set_status_def sess_stream_update)
  have "input_inv (onclose (set_status k SessionClosed st))"
    by (rule input_inv_frame [OF a]) (simp_all add: onclose_def)
  with s ClosedByPeer show ?thesis by (simp add: step_def split: if_splits)
next
  case (Errored k)
  assume i: "input_inv st" and s: "step dd ev st = Some st'"
  have "input_inv (st\<lparr> error := Some ''Connection error occurred.'' \<rparr>)"
    by (rule input_inv_frame [OF i]) simp_all
  then have "input_inv (onerror st)"
    unfolding onerror_def by (rule input_inv_cleanup)
  with s Errored show ?thesis by (simp add: step_def split: if_splits)
next
  case (Ended k)
  assume i: "input_inv st" and s: "step dd ev st = Some st'"
  have "input_inv (onended k st)"
    by (rule input_inv_frame [OF i]) (simp_all add: onended_def Let_def)
  with s Ended show ?thesis by (simp add: step_def split: if_splits)
qed

lemma input_inv_run: "input_inv st \<Longrightarrow> run dd evs st = Some st' \<Longrightarrow> input_inv st'"
proof (induction evs arbitrary: st)
  case Nil
  then show ?case by simp
next
  case (Cons ev evs)
  then show ?case
    by (auto split: option.splits dest: input_inv_step)
qed

lemma input_inv_reachable: "run dd evs live_init = Some st \<Longrightarrow> input_inv st"
  by (rule input_inv_run [OF input_inv_init])












text \<open>The definitions that evaluate a run of the panel on given events.\<close>

lemmas live_defs = live_init_def step_def startSession_begin_def startSession_granted_def
     has_status_def set_status_def onopen_def onmessage_begin_def onmessage_resume_def
     drop_pending_def inline_audio_def truthy_def is_interrupted_def
     schedule_audio_def interrupt_def stop_all_def stop_source_def Let_def cleanup_def
     close_session_def stop_tracks_def disconnect_processor_def disconnect_source_def
     close_context_def onclose_def

section \<open>Properties of the live session\<close>

lemma interrupt_effect:
  assumes "live_inv st"
  shows "(\<forall>s\<in>set (sourcesRef st). src_stopped (bufferSources (interrupt st) ! s))
     \<and> sourcesRef (interrupt st) = []
     \<and> nextStartTimeRef (interrupt st) = 0
     \<and> isTalking (interrupt st) = False
     \<and> (\<forall>s<length (bufferSources (interrupt st)).
           src_stopped (bufferSources (interrupt st) ! s)
           \<or> src_ended (bufferSources (interrupt st) ! s))"
  using assms unfolding interrupt_fields live_inv_def
  by (auto simp: stop_all_length stop_all_stopped stop_all_ended)





text \<open>
  C2. In every reachable state, when the handler of a message with
  \<open>interrupted\<close> set reaches the interruption branch, which is at once for a message
  without inline audio data and after the decode for a message with it, every source that
  is in the set is stopped, the set is emptied, the next start time is reset to 0 and
  \<open>isTalking\<close> is cleared; after it every source node started so far is stopped or has
  ended, so none of them is playing or waiting to play.
\<close>

theorem interruption_stops_everything:
  assumes "run dd evs live_init = Some st"
    and "(step dd (Message i now msg) st = Some st' \<and> is_interrupted msg
            \<and> \<not> truthy (inline_audio msg))
         \<or> (step dd (Decoded k) st = Some st' \<and> is_interrupted (pendingDecodes st ! k))"
  shows "(\<forall>s\<in>set (sourcesRef st). src_stopped (bufferSources st' ! s))
     \<and> sourcesRef st' = []
     \<and> nextStartTimeRef st' = 0
     \<and> isTalking st' = False
     \<and> (\<forall>s<length (bufferSources st').
           src_stopped (bufferSources st' ! s) \<or> src_ended (bufferSources st' ! s))"
proof -
  have inv: "live_inv st" using assms(1) by (rule live_inv_reachable)
  from assms(2) obtain st1 where e: "st' = interrupt st1" and i1: "live_inv st1"
    and sub: "set (sourcesRef st) \<subseteq> set (sourcesRef st1)"
  proof (elim disjE)
    assume h: "step dd (Message i now msg) st = Some st' \<and> is_interrupted msg
            \<and> \<not> truthy (inline_audio msg)"
    then have "st' = onmessage_begin now msg st"
      by (auto simp: step_def split: if_splits)
    with h have "st' = interrupt st" by (simp add: onmessage_begin_def)
    with inv show ?thesis by (intro that [of st]) simp_all
  next
    assume h: "step dd (Decoded k) st = Some st' \<and> is_interrupted (pendingDecodes st ! k)"
    let ?m = "pendingDecodes st ! k"
    let ?st1 = "schedule_audio (dd (the (inline_audio ?m))) (drop_pending k st)"
    from h have "st' = onmessage_resume dd ?m (drop_pending k st)"
      by (auto simp: step_def split: if_splits)
    with h have "st' = interrupt ?st1" by (simp add: onmessage_resume_def Let_def)
    moreover have "live_inv ?st1"
      using inv by (simp add: live_inv_schedule live_inv_drop)
    moreover have "set (sourcesRef st) \<subseteq> set (sourcesRef ?st1)"
      by (auto simp: schedule_audio_fields drop_pending_fields)
    ultimately show ?thesis by (intro that [of ?st1])
  qed
  from interrupt_effect [OF i1] sub show ?thesis
    unfolding e by blast
qed

theorem interruption_stops_everything_witness:
  "(let audio = \<lparr> serverContent = Some \<lparr> modelTurn = Some \<lparr> parts = Some
                    [\<lparr> inlineData = Some \<lparr> data = Some ''AAAA'' \<rparr> \<rparr>] \<rparr>, interrupted = None \<rparr> \<rparr>;
        stop = \<lparr> serverContent = Some \<lparr> modelTurn = None, interrupted = Some True \<rparr> \<rparr>;
        both = \<lparr> serverContent = Some \<lparr> modelTurn = Some \<lparr> parts = Some
                    [\<lparr> inlineData = Some \<lparr> data = Some ''AAAA'' \<rparr> \<rparr>] \<rparr>,
                    interrupted = Some True \<rparr> \<rparr>;
        dd = (\<lambda>base64. 2);
        evs = [ClickStart, MicGranted 1, Opened 0, Message 0 1 audio, Decoded 0]
    in \<exists>st st' st2 st2'.
         run dd evs live_init = Some st
         \<and> step dd (Message 0 2 stop) st = Some st'
         \<and> is_interrupted stop \<and> \<not> truthy (inline_audio stop)
         \<and> sourcesRef st = [0]
         \<and> src_stopped (bufferSources st' ! 0)
         \<and> sourcesRef st' = [] \<and> nextStartTimeRef st' = 0 \<and> isTalking st' = False
         \<and> run dd (evs @ [Message 0 2 both]) live_init = Some st2
         \<and> step dd (Decoded 0) st2 = Some st2'
         \<and> is_interrupted (pendingDecodes st2 ! 0)
         \<and> sourcesRef st2 = [0]
         \<and> src_stopped (bufferSources st2' ! 0)
         \<and> sourcesRef st2' = [] \<and> nextStartTimeRef st2' = 0 \<and> isTalking st2' = False)"
proof -
  let ?audio = "\<lparr> serverContent = Some \<lparr> modelTurn = Some \<lparr> parts = Some
                    [\<lparr> inlineData = Some \<lparr> data = Some ''AAAA'' \<rparr> \<rparr>] \<rparr>, interrupted = None \<rparr> \<rparr>"
  let ?stop = "\<lparr> serverContent = Some \<lparr> modelTurn = None, interrupted = Some True \<rparr> \<rparr>"
  let ?both = "\<lparr> serverContent = Some \<lparr> modelTurn = Some \<lparr> parts = Some
                    [\<lparr> inlineData = Some \<lparr> data = Some ''AAAA'' \<rparr> \<rparr>] \<rparr>,
                    interrupted = Some True \<rparr> \<rparr>"
  let ?dd = "\<lambda>base64::string. 2::real"
  let ?evs = "[ClickStart, MicGranted 1, Opened 0, Message 0 1 ?audio, Decoded 0]"
  obtain st where r: "run ?dd ?evs live_init = Some st"
    by (simp add: live_defs)
  have f: "sourcesRef st = [0]" "sessions st = [\<lparr> sess_status = Open, sess_stream = 0 \<rparr>]"
    "pendingDecodes st = []" "audioContextRef st = Some 1"
    using r by (auto simp: live_defs)
  let ?st' = "onmessage_begin 2 ?stop st"
  have s: "step ?dd (Message 0 2 ?stop) st = Some ?st'"
    using f by (simp add: step_def has_status_def)
  have t: "is_interrupted ?stop" "\<not> truthy (inline_audio ?stop)"
    "is_interrupted ?both" "truthy (inline_audio ?both)"
    by (simp_all add: is_interrupted_def inline_audio_def truthy_def)
  from interruption_stops_everything [OF r, of 0 2 ?stop ?st'] s t f
  have a: "src_stopped (bufferSources ?st' ! 0) \<and> sourcesRef ?st' = []
      \<and> nextStartTimeRef ?st' = 0 \<and> isTalking ?st' = False"
    by simp
  let ?st2 = "onmessage_begin 2 ?both st"
  have s2: "step ?dd (Message 0 2 ?both) st = Some ?st2"
    using f by (simp add: step_def has_status_def)
  have r2: "run ?dd (?evs @ [Message 0 2 ?both]) live_init = Some ?st2"
    using r s2 by (simp add: live_defs)
  have p2: "pendingDecodes ?st2 = [?both]" "sourcesRef ?st2 = [0]"
    using f t by (simp_all add: onmessage_begin_def)
  let ?st2' = "onmessage_resume ?dd ?both (drop_pending 0 ?st2)"
  have s2': "step ?dd (Decoded 0) ?st2 = Some ?st2'"
    using p2 by (simp add: step_def)
  from interruption_stops_everything [OF r2, of _ _ _ ?st2' 0] s2' p2 t
  have b: "src_stopped (bufferSources ?st2' ! 0) \<and> sourcesRef ?st2' = []
      \<and> nextStartTimeRef ?st2' = 0 \<and> isTalking ?st2' = False"
    by simp
  from r s t f a r2 s2' p2 b show ?thesis
    unfolding Let_def
    by (intro exI [of _ st] exI [of _ ?st'] exI [of _ ?st2] exI [of _ ?st2']) simp
qed

text \<open>
  A frame received before an interruption and still being decoded when it is handled is
  started after it and never stopped; and an interruption that comes with audio data whose
  decode fails is not handled at all.
\<close>

theorem interruption_raced_counterexample:
  "map src_stopped (bufferSources (the (run (real \<circ> length)
       [ClickStart, MicGranted 1, Opened 0,
        Message 0 5 \<lparr> serverContent = Some \<lparr> modelTurn = Some \<lparr> parts = Some
           [\<lparr> inlineData = Some \<lparr> data = Some ''AAAA'' \<rparr> \<rparr>] \<rparr>, interrupted = None \<rparr> \<rparr>,
        Message 0 6 \<lparr> serverContent = Some \<lparr> modelTurn = None, interrupted = Some True \<rparr> \<rparr>,
        Decoded 0]
       live_init))) = [False]
   \<and> sourcesRef (the (run (real \<circ> length)
       [ClickStart, MicGranted 1, Opened 0,
        Message 0 5 \<lparr> serverContent = Some \<lparr> modelTurn = Some \<lparr> parts = Some
           [\<lparr> inlineData = Some \<lparr> data = Some ''AAAA'' \<rparr> \<rparr>] \<rparr>, interrupted = None \<rparr> \<rparr>,
        Message 0 6 \<lparr> serverContent = Some \<lparr> modelTurn = None, interrupted = Some True \<rparr> \<rparr>,
        Decoded 0]
       live_init)) = [0]
   \<and> sourcesRef (the (run (real \<circ> length)
       [ClickStart, MicGranted 1, Opened 0,
        Message 0 1 \<lparr> serverContent = Some \<lparr> modelTurn = Some \<lparr> parts = Some
           [\<lparr> inlineData = Some \<lparr> data = Some ''AAAA'' \<rparr> \<rparr>] \<rparr>, interrupted = None \<rparr> \<rparr>,
        Decoded 0,
        Message 0 2 \<lparr> serverContent = Some \<lparr> modelTurn = Some \<lparr> parts = Some
           [\<lparr> inlineData = Some \<lparr> data = Some ''!!'' \<rparr> \<rparr>] \<rparr>, interrupted = Some True \<rparr> \<rparr>,
        DecodeFailed 0]
       live_init)) = [0]"
  by (simp add: live_defs)

text \<open>
  C3. The number of open streaming sessions is not bounded by one. The start button stays
  rendered until \<open>onopen\<close> sets \<open>connected\<close>, so \<open>startSession\<close> can be called a
  second time while the first call is still waiting for the microphone or for the
  connection. Both calls connect, the second overwrites the stored session handle, and two
  sessions are open. \<open>cleanup\<close> then closes only the stored one: the panel is idle, the
  start button is back, and the first session is still open.
\<close>

theorem double_start_two_sessions:
  "\<exists>st st'.
     run (\<lambda>base64. 0) [ClickStart, ClickStart, MicGranted 1, MicGranted 1, Opened 0, Opened 1]
       live_init = Some st
     \<and> open_sessions st = 2
     \<and> run (\<lambda>base64. 0) [ClickEnd] st = Some st'
     \<and> connected st' = False
     \<and> map sess_status (sessions st') = [Open, SessionClosed]
     \<and> open_sessions st' = 1"
  by (simp add: live_defs open_sessions_def)

text \<open>
  C5. When a session opens in a reachable state, the input context has a sample rate of
  16000 Hz; a source node is made from the microphone stream of that \<open>startSession\<close>
  call, a processor with a buffer of 4096 sample frames, one input and one output channel
  is made on the same context, the source node is connected to the processor and the
  processor to the destination. For every \<open>audioprocess\<close> event of that processor the
  handler passes channel 0, which holds exactly 4096 samples, to \<open>createPcmBlob\<close> and
  gives the blob to \<open>sendRealtimeInput\<close> of the session.
\<close>

theorem microphone_frames:
  assumes "run dd evs live_init = Some st"
    and "step dd (Opened i) st = Some st'"
    and "delivered_by (processors st' ! the (processorRef st')) inputBuffer"
  shows "\<exists>c p n inputData.
       inputContextRef st' = Some c \<and> c < length (contexts st')
       \<and> sampleRate (contexts st' ! c) = 16000
       \<and> sourceRef st' = Some n \<and> n < length (micSources st')
       \<and> mic_stream (micSources st' ! n) = sess_stream (sessions st ! i)
       \<and> sess_stream (sessions st ! i) < length (streams st')
       \<and> mic_context (micSources st' ! n) = c
       \<and> mic_output (micSources st' ! n) = Some p
       \<and> processorRef st' = Some p \<and> p < length (processors st')
       \<and> proc_context (processors st' ! p) = c
       \<and> proc_connected (processors st' ! p)
       \<and> proc_session (processors st' ! p) = i
       \<and> bufferSize (processors st' ! p) = 4096
       \<and> numberOfInputChannels (processors st' ! p) = 1
       \<and> numberOfOutputChannels (processors st' ! p) = 1
       \<and> inputBuffer = [inputData] \<and> length inputData = 4096
       \<and> onaudioprocess createPcmBlob (processors st' ! p) inputBuffer
           = Some (i, createPcmBlob inputData)"
proof -
  let ?st0 = "set_status i Open st"
  have o: "has_status i Connecting st" and e: "st' = onopen i ?st0"
    using assms(2) by (auto simp: step_def split: if_splits)
  have i0: "input_inv st" using assms(1) by (rule input_inv_reachable)
  then have "input_inv ?st0"
    by (rule input_inv_frame) (simp_all add: set_status_def sess_stream_update)
  moreover have ne: "sessions ?st0 \<noteq> []"
    using o by (auto simp: has_status_def set_status_def)
  ultimately obtain c where c: "inputContextRef ?st0 = Some c" "c < length (contexts ?st0)"
      "sampleRate (contexts ?st0 ! c) = 16000"
    by (auto simp: input_inv_def)
  have il: "i < length (sessions st)" using o by (simp add: has_status_def)
  have ss: "sess_stream (sessions ?st0 ! i) = sess_stream (sessions st ! i)"
    using il by (simp add: set_status_def)
  have sl: "sess_stream (sessions st ! i) < length (streams st)"
    using i0 il by (simp add: input_inv_def)
  let ?p = "length (processors ?st0)"
  let ?n = "length (micSources ?st0)"
  let ?proc = "\<lparr> bufferSize = 4096, numberOfInputChannels = 1, numberOfOutputChannels = 1,
                    proc_context = c, proc_session = i, proc_connected = True \<rparr>"
  let ?mic = "\<lparr> mic_stream = sess_stream (sessions st ! i), mic_context = c,
                 mic_output = Some ?p \<rparr>"
  have f: "inputContextRef st' = Some c" "contexts st' = contexts ?st0"
    "processorRef st' = Some ?p" "processors st' = processors ?st0 @ [?proc]"
    "sourceRef st' = Some ?n" "micSources st' = micSources ?st0 @ [?mic]"
    "streams st' = streams st"
    using c(1) ss by (simp_all add: e onopen_def) (simp add: set_status_def)
  have pr: "processors st' ! ?p = ?proc" "micSources st' ! ?n = ?mic"
    by (simp_all add: f)
  from assms(3) have "delivered_by ?proc inputBuffer"
    by (simp add: f)
  then obtain inputData where b: "inputBuffer = [inputData]" "length inputData = 4096"
    by (cases inputBuffer) (auto simp: delivered_by_def)
  have "onaudioprocess createPcmBlob ?proc inputBuffer = Some (i, createPcmBlob inputData)"
    by (simp add: onaudioprocess_def b)
  with c f pr b sl show ?thesis by simp
qed

theorem microphone_frames_witness:
  "\<exists>st st'.
     run (\<lambda>base64. 0) [ClickStart, MicGranted 1] live_init = Some st
     \<and> step (\<lambda>base64. 0) (Opened 0) st = Some st'
     \<and> delivered_by (processors st' ! the (processorRef st')) [replicate 4096 (0::int)]
     \<and> inputContextRef st' = Some 0 \<and> sampleRate (contexts st' ! 0) = 16000
     \<and> sourceRef st' = Some 0 \<and> sess_stream (sessions st ! 0) = 0
     \<and> micSources st' = [\<lparr> mic_stream = 0, mic_context = 0, mic_output = Some 0 \<rparr>]
     \<and> processorRef st' = Some 0 \<and> bufferSize (processors st' ! 0) = 4096
     \<and> onaudioprocess length (processors st' ! 0) [replicate 4096 (0::int)] = Some (0, 4096)"
proof -
  let ?dd = "\<lambda>base64::string. 0::real"
  let ?buf = "[replicate 4096 (0::int)]"
  obtain st where r: "run ?dd [ClickStart, MicGranted 1] live_init = Some st"
    by (simp add: live_defs)
  have f: "sessions st = [\<lparr> sess_status = Connecting, sess_stream = 0 \<rparr>]"
    "inputContextRef st = Some 0" "processors st = []" "micSources st = []"
    using r by (auto simp: live_defs)
  have s: "step ?dd (Opened 0) st = Some (onopen 0 (set_status 0 Open st))"
    using f by (simp add: step_def has_status_def)
  let ?st' = "onopen 0 (set_status 0 Open st)"
  have g: "processorRef ?st' = Some 0" "inputContextRef ?st' = Some 0" "sourceRef ?st' = Some 0"
    "processors ?st' = [\<lparr> bufferSize = 4096, numberOfInputChannels = 1,
        numberOfOutputChannels = 1, proc_context = 0, proc_session = 0, proc_connected = True \<rparr>]"
    "micSources ?st' = [\<lparr> mic_stream = 0, mic_context = 0, mic_output = Some 0 \<rparr>]"
    using f by (simp_all add: onopen_def set_status_def)
  have d: "delivered_by (processors ?st' ! the (processorRef ?st')) ?buf"
    by (simp add: g delivered_by_def)
  from microphone_frames [OF r s d, of length] g
  have "sampleRate (contexts ?st' ! 0) = 16000
     \<and> onaudioprocess length (processors ?st' ! 0) ?buf = Some (0, 4096)"
    by auto
  with r s d g f show ?thesis
    by (intro exI [of _ st] exI [of _ ?st']) simp
qed




end
